theory Spec2Isabelle
  imports Main "HOL-Library.Multiset" "HOL-Library.Sublist"
begin

section \<open>Data model (src/types/task.ts)\<close>

datatype Priority = Urgent | High | Medium | Low

datatype Status = Todo | Progress | Completed

text \<open>
  The string tags of the two union types. A drop zone of a column carries the tag of its
  priority as its id, and the status filter is a plain string.
\<close>

fun priorityTag :: "Priority \<Rightarrow> string" where
  "priorityTag Urgent = ''urgent''"
| "priorityTag High = ''high''"
| "priorityTag Medium = ''medium''"
| "priorityTag Low = ''low''"

fun statusTag :: "Status \<Rightarrow> string" where
  "statusTag Todo = ''todo''"
| "statusTag Progress = ''progress''"
| "statusTag Completed = ''completed''"

text \<open>
  \<^verbatim>\<open>TaskFormData\<close> holds the six form fields; \<^verbatim>\<open>Task\<close> has the same six fields
  and five more, so it is modelled as an extension of the form record. The optional
  \<^verbatim>\<open>description?\<close> is an option: \<open>None\<close> is the absent property. Timestamps and
  dates are the strings the source stores.
\<close>

record TaskFormData =
  name :: string
  assignedTo :: string
  startDate :: string
  endDate :: string
  priority :: Priority
  description :: "string option"

record Task = TaskFormData +
  id_task :: string
  status :: Status
  images :: "string list"
  createdAt :: string
  updatedAt :: string

text \<open>
  A JavaScript \<^verbatim>\<open>Date\<close> is its time value: a number of milliseconds, or NaN
  (\<open>None\<close>) for an invalid date.
\<close>

type_synonym Date = "int option"

datatype Variant = Default | Destructive

record Toast =
  title :: string
  description_toast :: string
  variant :: Variant

text \<open>
  The state of the \<^verbatim>\<open>TaskManager\<close> component: its eight \<^verbatim>\<open>useState\<close> cells, and
  the log of the calls of \<^verbatim>\<open>toast\<close>, oldest first. Every handler below runs on the state
  of the latest render, so the \<^verbatim>\<open>tasks\<close> of its closure and the \<^verbatim>\<open>prev\<close> of a
  functional \<^verbatim>\<open>setTasks\<close> are the same list.
\<close>

record State =
  tasks :: "Task list"
  activeTask :: "Task option"
  isModalOpen :: bool
  editingTask :: "Task option"
  defaultPriority :: Priority
  searchQuery :: string
  statusFilter :: string
  dateFilter :: "Date option"
  toasts :: "Toast list"

section \<open>Array helpers\<close>

text \<open>\<^verbatim>\<open>Array.prototype.findIndex\<close>: the first index whose element satisfies the test, or -1.\<close>

fun findIndex :: "('a \<Rightarrow> bool) \<Rightarrow> 'a list \<Rightarrow> int" where
  "findIndex P [] = - 1"
| "findIndex P (x # xs) =
     (if P x then 0
      else (let i = findIndex P xs in if i < 0 then - 1 else i + 1))"

text \<open>
  Modelled from the spec: \<^verbatim>\<open>arrayMove\<close> is imported from @dnd-kit/sortable and is not
  under src/. The specification says of it that it removes the task at \<^verbatim>\<open>fromIndex\<close>
  and reinserts it at \<^verbatim>\<open>toIndex\<close>; the library's function is
  \<^verbatim>\<open>
  function arrayMove(array, from, to) {
    const newArray = array.slice();
    newArray.splice(to < 0 ? newArray.length + to : to, 0, newArray.splice(from, 1)[0]);
    return newArray;
  }
  \<close>
  \<^verbatim>\<open>splice\<close> counts a negative start from the end and clamps the start to the array
  (\<open>spliceStart\<close>). The arguments of the outer \<^verbatim>\<open>splice\<close> are evaluated from left to
  right: its start reads \<^verbatim>\<open>newArray.length\<close> before the inner \<^verbatim>\<open>splice(from, 1)\<close>
  removes the element, and is clamped to the array after the removal. When \<^verbatim>\<open>from\<close>
  selects no element the library inserts \<^verbatim>\<open>undefined\<close>; the result is then no array
  of tasks, and the model returns \<open>None\<close>.
\<close>

definition spliceStart :: "int \<Rightarrow> int \<Rightarrow> nat" where
  "spliceStart len start = nat (if start < 0 then max (len + start) 0 else min start len)"

definition arrayMove :: "'a list \<Rightarrow> int \<Rightarrow> int \<Rightarrow> 'a list option" where
  "arrayMove array from to =
     (let start = (if to < 0 then int (length array) + to else to);
          k = spliceStart (int (length array)) from
      in if k < length array then
           (let item = array ! k;
                newArray = take k array @ drop (Suc k) array;
                pos = spliceStart (int (length newArray)) start
            in Some (take pos newArray @ [item] @ drop pos newArray))
         else None)"

section \<open>Drag interaction (TaskManager)\<close>

definition handleDragStart :: "State \<Rightarrow> string \<Rightarrow> State" where
  "handleDragStart s activeId =
     s\<lparr>activeTask := find (\<lambda>t. id_task t = activeId) (tasks s)\<rparr>"

text \<open>
  \<^verbatim>\<open>priorities.includes(overId)\<close> followed by the cast of \<^verbatim>\<open>overId\<close> to a priority:
  the priority whose tag the id is, if it is one of the four tags.
\<close>

definition priorities :: "Priority list" where
  "priorities = [Urgent, High, Medium, Low]"

definition priorityOfId :: "string \<Rightarrow> Priority option" where
  "priorityOfId overId = find (\<lambda>p. priorityTag p = overId) priorities"

text \<open>
  \<^verbatim>\<open>handleDragOver\<close>; \<open>over\<close> is \<open>None\<close> when the event has no \<^verbatim>\<open>over\<close>, and
  \<open>now\<close> is the string \<^verbatim>\<open>new Date().toISOString()\<close> gives at the event.
\<close>

definition handleDragOver :: "string \<Rightarrow> State \<Rightarrow> string \<Rightarrow> string option \<Rightarrow> State" where
  "handleDragOver now s activeId over =
     (case over of
        None \<Rightarrow> s
      | Some overId \<Rightarrow>
          (case find (\<lambda>t. id_task t = activeId) (tasks s) of
             None \<Rightarrow> s
           | Some active \<Rightarrow>
               (case priorityOfId overId of
                  None \<Rightarrow> s
                | Some newPriority \<Rightarrow>
                    if priority active \<noteq> newPriority then
                      s\<lparr>tasks := map (\<lambda>task.
                            if id_task task = activeId
                            then task\<lparr>priority := newPriority, updatedAt := now\<rparr>
                            else task) (tasks s)\<rparr>
                    else s)))"

text \<open>
  The reordering block of \<^verbatim>\<open>handleDragEnd\<close> (the body of its last \<^verbatim>\<open>if\<close>), as a
  function of the collection, the priority and the two indices: the tasks of the other
  priorities first, then the moved tasks of the priority.
\<close>

definition reorder :: "Task list \<Rightarrow> Priority \<Rightarrow> int \<Rightarrow> int \<Rightarrow> Task list option" where
  "reorder ts p activeIndex overIndex =
     (let priorityTasks = filter (\<lambda>t. priority t = p) ts in
      if activeIndex \<noteq> overIndex then
        (case arrayMove priorityTasks activeIndex overIndex of
           None \<Rightarrow> None
         | Some reorderedTasks \<Rightarrow>
             (let otherTasks = filter (\<lambda>t. priority t \<noteq> p) ts
              in Some (otherTasks @ reorderedTasks)))
      else Some ts)"

definition handleDragEnd :: "State \<Rightarrow> string \<Rightarrow> string option \<Rightarrow> State option" where
  "handleDragEnd s activeId over =
     (let s1 = s\<lparr>activeTask := None\<rparr> in
      case over of
        None \<Rightarrow> Some s1
      | Some overId \<Rightarrow>
          (case find (\<lambda>t. id_task t = activeId) (tasks s) of
             None \<Rightarrow> Some s1
           | Some active \<Rightarrow>
               (case find (\<lambda>t. id_task t = overId) (tasks s) of
                  None \<Rightarrow> Some s1
                | Some overTask \<Rightarrow>
                    if priority active = priority overTask then
                      (let priorityTasks = filter (\<lambda>t. priority t = priority active) (tasks s);
                           activeIndex = findIndex (\<lambda>t. id_task t = activeId) priorityTasks;
                           overIndex = findIndex (\<lambda>t. id_task t = overId) priorityTasks
                       in map_option (\<lambda>ts. s1\<lparr>tasks := ts\<rparr>)
                            (reorder (tasks s) (priority active) activeIndex overIndex))
                    else Some s1)))"

section \<open>Task store handlers (TaskManager)\<close>

definition handleAddTask :: "State \<Rightarrow> Priority \<Rightarrow> State" where
  "handleAddTask s p = s\<lparr>defaultPriority := p, editingTask := None, isModalOpen := True\<rparr>"

definition handleEditTask :: "State \<Rightarrow> Task \<Rightarrow> State" where
  "handleEditTask s task = s\<lparr>editingTask := Some task, isModalOpen := True\<rparr>"

definition handleCloseModal :: "State \<Rightarrow> State" where
  "handleCloseModal s = s\<lparr>isModalOpen := False, editingTask := None\<rparr>"

text \<open>
  The template literal \<^verbatim>\<open>${task?.name}\<close>: the name of the task found, or the text
  \<^verbatim>\<open>undefined\<close> when \<^verbatim>\<open>find\<close> found none.
\<close>

definition nameOrUndefined :: "Task option \<Rightarrow> string" where
  "nameOrUndefined task = (case task of None \<Rightarrow> ''undefined'' | Some t \<Rightarrow> name t)"

definition handleDeleteTask :: "State \<Rightarrow> string \<Rightarrow> State" where
  \<open>handleDeleteTask s taskId =
     (let task = find (\<lambda>t. id_task t = taskId) (tasks s) in
      s\<lparr>tasks := filter (\<lambda>t. id_task t \<noteq> taskId) (tasks s),
        toasts := toasts s @
          [\<lparr>title = ''Task Deleted'',
            description_toast = ''Task "'' @ nameOrUndefined task @ ''" has been deleted successfully.'',
            variant = Default\<rparr>]\<rparr>)\<close>

definition handleStatusUpdate :: "string \<Rightarrow> State \<Rightarrow> string \<Rightarrow> Status \<Rightarrow> State" where
  \<open>handleStatusUpdate now s taskId newStatus =
     (let task = find (\<lambda>t. id_task t = taskId) (tasks s) in
      s\<lparr>tasks := map (\<lambda>t. if id_task t = taskId
                            then t\<lparr>status := newStatus, updatedAt := now\<rparr> else t) (tasks s),
        toasts := toasts s @
          [\<lparr>title = ''Status Updated'',
            description_toast = ''Task "'' @ nameOrUndefined task @ ''" moved to ''
                                  @ statusTag newStatus @ ''.'',
            variant = Default\<rparr>]\<rparr>)\<close>

text \<open>
  The object spread \<^verbatim>\<open>{...task, ...taskData, images, updatedAt: timestamp}\<close>: every
  property the form data has replaces the task's; an absent \<^verbatim>\<open>description\<close> leaves the
  task's description as it is.
\<close>

definition mergeTask :: "Task \<Rightarrow> TaskFormData \<Rightarrow> string list \<Rightarrow> string \<Rightarrow> Task" where
  "mergeTask task taskData imgs timestamp =
     task\<lparr>name := name taskData, assignedTo := assignedTo taskData,
          startDate := startDate taskData, endDate := endDate taskData,
          priority := priority taskData,
          description := (case description taskData of
                            None \<Rightarrow> description task | Some d \<Rightarrow> Some d),
          images := imgs, updatedAt := timestamp\<rparr>"

text \<open>
  \<^verbatim>\<open>handleSaveTask\<close>. \<open>timestamp\<close> is the string \<^verbatim>\<open>new Date().toISOString()\<close> gives at
  the call, and \<open>newId\<close> the string \<^verbatim>\<open>generateId()\<close> returns, that is
  \<^verbatim>\<open>Math.random().toString(36).substr(2, 9)\<close>: the handler does not compare it with
  the ids in use.
\<close>

definition handleSaveTask ::
  "string \<Rightarrow> string \<Rightarrow> State \<Rightarrow> TaskFormData \<Rightarrow> string list \<Rightarrow> State" where
  "handleSaveTask timestamp newId s taskData imgs =
     (case editingTask s of
        Some editing \<Rightarrow>
          s\<lparr>tasks := map (\<lambda>task. if id_task task = id_task editing
                                   then mergeTask task taskData imgs timestamp
                                   else task) (tasks s)\<rparr>
      | None \<Rightarrow>
          (let newTask =
                 \<lparr>name = name taskData, assignedTo = assignedTo taskData,
                  startDate = startDate taskData, endDate = endDate taskData,
                  priority = priority taskData, description = description taskData,
                  id_task = newId, status = Todo, images = imgs,
                  createdAt = timestamp, updatedAt = timestamp\<rparr>
           in s\<lparr>tasks := tasks s @ [newTask]\<rparr>))"

section \<open>Filtering and grouping (TaskManager)\<close>

text \<open>
  The strings of the model are byte strings: the UTF-8 encoding of the JavaScript string.
  \<^verbatim>\<open>includes\<close> is the contiguous-substring test (true for the empty search string);
  on well-formed strings it is the same on the bytes as on the UTF-16 code units.
\<close>

definition includes_str :: "string \<Rightarrow> string \<Rightarrow> bool" where
  "includes_str s q = sublist q s"

text \<open>
  \<^verbatim>\<open>String.prototype.toLowerCase\<close> is the engine's: it maps the letters of every script,
  depends on the context (a capital sigma at the end of a word) and can change the length
  of the string. It is the parameter \<open>toLowerCase\<close> of the filter. What is used of it is
  its value on ASCII text, where it maps the letters A to Z to a to z and nothing else
  (\<open>lowerASCII\<close>); a byte is ASCII when its top bit is clear.
\<close>

definition letterPairs :: "(char \<times> char) list" where
  "letterPairs = zip ''ABCDEFGHIJKLMNOPQRSTUVWXYZ'' ''abcdefghijklmnopqrstuvwxyz''"

definition lowerChar :: "char \<Rightarrow> char" where
  "lowerChar c = (case map_of letterPairs c of None \<Rightarrow> c | Some l \<Rightarrow> l)"

definition lowerASCII :: "string \<Rightarrow> string" where
  "lowerASCII str = map lowerChar str"

definition isASCII :: "string \<Rightarrow> bool" where
  "isASCII str = (\<forall>c \<in> set str. \<not> digit7 c)"

definition lowersASCII :: "(string \<Rightarrow> string) \<Rightarrow> bool" where
  "lowersASCII toLowerCase = (\<forall>str. isASCII str \<longrightarrow> toLowerCase str = lowerASCII str)"

text \<open>
  \<^verbatim>\<open>new Date(str)\<close>: the empty string is an invalid date; what any other string parses
  to is the engine's, and is the parameter \<open>parse\<close>. \<^verbatim>\<open>toDateString\<close> renders the
  calendar day of a date in the local time zone, and an invalid date as the text
  \<^verbatim>\<open>Invalid Date\<close>; it is a parameter too.
\<close>

definition newDate :: "(string \<Rightarrow> Date) \<Rightarrow> string \<Rightarrow> Date" where
  "newDate parse str = (if str = [] then None else parse str)"

definition filteredTasks ::
  "(string \<Rightarrow> string) \<Rightarrow> (Date \<Rightarrow> string) \<Rightarrow> (string \<Rightarrow> Date) \<Rightarrow> State \<Rightarrow> Task list" where
  "filteredTasks toLowerCase toDateString parse s =
     filter (\<lambda>task.
       (let matchesSearch =
              (includes_str (toLowerCase (name task)) (toLowerCase (searchQuery s))
               \<or> includes_str (toLowerCase (assignedTo task)) (toLowerCase (searchQuery s)));
            matchesStatus = (statusFilter s = ''all'' \<or> statusTag (status task) = statusFilter s);
            matchesDate =
              (case dateFilter s of
                 None \<Rightarrow> True
               | Some d \<Rightarrow> toDateString (newDate parse (createdAt task)) = toDateString d)
        in matchesSearch \<and> matchesStatus \<and> matchesDate)) (tasks s)"

record Grouped =
  urgent :: "Task list"
  high :: "Task list"
  medium :: "Task list"
  low :: "Task list"

definition groupedTasks ::
  "(string \<Rightarrow> string) \<Rightarrow> (Date \<Rightarrow> string) \<Rightarrow> (string \<Rightarrow> Date) \<Rightarrow> State \<Rightarrow> Grouped" where
  "groupedTasks toLowerCase toDateString parse s =
     \<lparr>urgent = filter (\<lambda>task. priority task = Urgent)
                 (filteredTasks toLowerCase toDateString parse s),
      high = filter (\<lambda>task. priority task = High)
                 (filteredTasks toLowerCase toDateString parse s),
      medium = filter (\<lambda>task. priority task = Medium)
                 (filteredTasks toLowerCase toDateString parse s),
      low = filter (\<lambda>task. priority task = Low)
                 (filteredTasks toLowerCase toDateString parse s)\<rparr>"

text \<open>\<^verbatim>\<open>groupedTasks[priority]\<close>, as the columns read it.\<close>

fun bucket :: "Grouped \<Rightarrow> Priority \<Rightarrow> Task list" where
  "bucket g Urgent = urgent g"
| "bucket g High = high g"
| "bucket g Medium = medium g"
| "bucket g Low = low g"

section \<open>Form submit (TaskModal)\<close>

text \<open>The state of the \<^verbatim>\<open>TaskModal\<close> component.\<close>

record Form =
  formData :: TaskFormData
  images_form :: "string list"
  isSubmitting :: bool

text \<open>\<^verbatim>\<open>String.prototype.trim\<close> on ASCII: space, tab, line feed, vertical tab, form feed, carriage return.\<close>

definition isWhiteSpace :: "char \<Rightarrow> bool" where
  "isWhiteSpace c = (c \<in> set [CHR '' '', CHR 0x09, CHR 0x0A, CHR 0x0B, CHR 0x0C, CHR 0x0D])"

definition trim :: "string \<Rightarrow> string" where
  "trim s = rev (dropWhile isWhiteSpace (rev (dropWhile isWhiteSpace s)))"

text \<open>\<^verbatim>\<open>a > b\<close> on two dates compares their time values; it is false when either is NaN.\<close>

definition dateGreater :: "Date \<Rightarrow> Date \<Rightarrow> bool" where
  "dateGreater a b = (case (a, b) of (Some x, Some y) \<Rightarrow> x > y | _ \<Rightarrow> False)"

definition missingInformation :: Toast where
  "missingInformation =
     \<lparr>title = ''Missing Information'',
      description_toast = ''Please fill in the task name and assigned person.'',
      variant = Destructive\<rparr>"

definition invalidDates :: Toast where
  "invalidDates =
     \<lparr>title = ''Invalid Dates'',
      description_toast = ''Start date cannot be after end date.'',
      variant = Destructive\<rparr>"

definition savedToast :: "Task option \<Rightarrow> string \<Rightarrow> Toast" where
  \<open>savedToast task taskName =
     \<lparr>title = (if task \<noteq> None then ''Task Updated'' else ''Task Created''),
      description_toast = ''Task "'' @ taskName @ ''" has been ''
          @ (if task \<noteq> None then ''updated'' else ''created'') @ '' successfully.'',
      variant = Default\<rparr>\<close>

text \<open>
  \<^verbatim>\<open>handleSubmit\<close>, with the props the manager passes: \<^verbatim>\<open>task\<close> is \<^verbatim>\<open>editingTask\<close>,
  \<^verbatim>\<open>onSave\<close> is \<^verbatim>\<open>handleSaveTask\<close> and \<^verbatim>\<open>onClose\<close> is \<^verbatim>\<open>handleCloseModal\<close>.
  \<^verbatim>\<open>handleSaveTask\<close> throws nothing, so the \<^verbatim>\<open>catch\<close> block is never entered, and
  \<^verbatim>\<open>finally\<close> leaves \<^verbatim>\<open>isSubmitting\<close> false.
\<close>

definition handleSubmit ::
  "(string \<Rightarrow> Date) \<Rightarrow> string \<Rightarrow> string \<Rightarrow> State \<Rightarrow> Form \<Rightarrow> State \<times> Form" where
  "handleSubmit parse timestamp newId s f =
     (if trim (name (formData f)) = [] \<or> trim (assignedTo (formData f)) = [] then
        (s\<lparr>toasts := toasts s @ [missingInformation]\<rparr>, f)
      else if dateGreater (newDate parse (startDate (formData f)))
                          (newDate parse (endDate (formData f))) then
        (s\<lparr>toasts := toasts s @ [invalidDates]\<rparr>, f)
      else
        (let s1 = handleSaveTask timestamp newId s (formData f) (images_form f);
             s2 = s1\<lparr>toasts := toasts s1 @ [savedToast (editingTask s) (name (formData f))]\<rparr>;
             s3 = handleCloseModal s2
         in (s3, f\<lparr>isSubmitting := False\<rparr>)))"

section \<open>The operations as the specification words them\<close>

text \<open>
  The specification's reorder: the moved subsequence of priority \<open>p\<close> is written back
  into the positions the tasks of priority \<open>p\<close> occupied, every other task staying at its
  index. \<open>spliceBack p ts rs\<close> walks the collection and takes the next task of \<open>rs\<close> at
  each position that holds a task of priority \<open>p\<close>.
\<close>

fun spliceBack :: "Priority \<Rightarrow> Task list \<Rightarrow> Task list \<Rightarrow> Task list" where
  "spliceBack p [] rs = []"
| "spliceBack p (t # ts) rs =
     (if priority t = p
      then (case rs of [] \<Rightarrow> t # spliceBack p ts [] | r # rs' \<Rightarrow> r # spliceBack p ts rs')
      else t # spliceBack p ts rs)"

definition reorder_positional :: "Task list \<Rightarrow> Priority \<Rightarrow> int \<Rightarrow> int \<Rightarrow> Task list option" where
  "reorder_positional ts p fromIndex toIndex =
     (if fromIndex \<noteq> toIndex
      then map_option (spliceBack p ts)
             (arrayMove (filter (\<lambda>t. priority t = p) ts) fromIndex toIndex)
      else Some ts)"

text \<open>
  The drop target of a drag end "identifies another task sharing the active task's
  priority": there is a target, its id is not the active id, both ids are found in the
  collection, and the two tasks found have the same priority.
\<close>

definition dropsOnPeer :: "State \<Rightarrow> string \<Rightarrow> string option \<Rightarrow> bool" where
  "dropsOnPeer s activeId over =
     (case over of
        None \<Rightarrow> False
      | Some overId \<Rightarrow>
          overId \<noteq> activeId \<and>
          (case (find (\<lambda>t. id_task t = activeId) (tasks s),
                 find (\<lambda>t. id_task t = overId) (tasks s)) of
             (Some active, Some overTask) \<Rightarrow> priority active = priority overTask
           | _ \<Rightarrow> False))"

text \<open>
  The three filter predicates as the specification words them, none of them through the
  functions of the engine.

  Search: the search text is, up to the case of the letters A to Z, a contiguous part of
  the name or of the assignee. Two bytes are the same letter when they are equal or are
  the capital and the small form of one letter.
\<close>

definition sameLetter :: "char \<Rightarrow> char \<Rightarrow> bool" where
  "sameLetter c d = (c = d \<or> (c, d) \<in> set letterPairs \<or> (d, c) \<in> set letterPairs)"

definition caseInsensitiveSubstring :: "string \<Rightarrow> string \<Rightarrow> bool" where
  "caseInsensitiveSubstring q str =
     (\<exists>pre mid post. str = pre @ mid @ post \<and> list_all2 sameLetter mid q)"

definition matchesSearch_spec :: "string \<Rightarrow> Task \<Rightarrow> bool" where
  "matchesSearch_spec q t =
     (caseInsensitiveSubstring q (name t) \<or> caseInsensitiveSubstring q (assignedTo t))"

text \<open>
  Status: the filter string names every status ("all") or one status, and a task matches
  when its status is the one named; a string that names neither matches no task.
\<close>

datatype StatusFilter = AllStatuses | OnlyStatus Status

definition statusFilterOf :: "string \<Rightarrow> StatusFilter option" where
  "statusFilterOf sf =
     (if sf = ''all'' then Some AllStatuses
      else map_option OnlyStatus (find (\<lambda>st. statusTag st = sf) [Todo, Progress, Completed]))"

definition matchesStatus_spec :: "string \<Rightarrow> Task \<Rightarrow> bool" where
  "matchesStatus_spec sf t =
     (case statusFilterOf sf of
        None \<Rightarrow> False
      | Some AllStatuses \<Rightarrow> True
      | Some (OnlyStatus st) \<Rightarrow> status t = st)"

text \<open>
  Date: \<open>localDay\<close> gives the calendar day, in the local time zone, of a time value. An
  unset filter matches every task; a filter date matches the tasks whose \<open>createdAt\<close>
  parses to a date of the same calendar day; an invalid filter date has no calendar day
  and matches the tasks whose \<open>createdAt\<close> has none either. \<open>rendersDay\<close> is what is known
  of \<^verbatim>\<open>toDateString\<close>: two dates have the same text exactly when they fall on the same
  calendar day, and the text of an invalid date is the text of no date.
\<close>

definition matchesDate_spec :: "(int \<Rightarrow> 'd) \<Rightarrow> (string \<Rightarrow> Date) \<Rightarrow> Date option \<Rightarrow> Task \<Rightarrow> bool" where
  "matchesDate_spec localDay parse df t =
     (case df of
        None \<Rightarrow> True
      | Some None \<Rightarrow> newDate parse (createdAt t) = None
      | Some (Some y) \<Rightarrow>
          (case newDate parse (createdAt t) of
             None \<Rightarrow> False
           | Some x \<Rightarrow> localDay x = localDay y))"

definition rendersDay :: "(Date \<Rightarrow> string) \<Rightarrow> (int \<Rightarrow> 'd) \<Rightarrow> bool" where
  "rendersDay toDateString localDay =
     ((\<forall>x y. toDateString (Some x) = toDateString (Some y) \<longleftrightarrow> localDay x = localDay y)
      \<and> (\<forall>x. toDateString (Some x) \<noteq> toDateString None))"

section \<open>Sample data (TaskManager)\<close>

definition initialTasks :: "Task list" where
  "initialTasks =
     [\<lparr>name = ''Design system components'', assignedTo = ''Sarah Johnson'',
       startDate = ''2024-01-15'', endDate = ''2024-01-25'', priority = High,
       description = Some ''Create reusable components for the design system'',
       id_task = ''1'', status = Todo, images = [],
       createdAt = ''2024-01-10T10:00:00Z'', updatedAt = ''2024-01-10T10:00:00Z''\<rparr>,
      \<lparr>name = ''API integration'', assignedTo = ''Mike Chen'',
       startDate = ''2024-01-18'', endDate = ''2024-01-30'', priority = Urgent,
       description = Some ''Integrate third-party APIs'',
       id_task = ''2'', status = Todo, images = [],
       createdAt = ''2024-01-12T09:00:00Z'', updatedAt = ''2024-01-12T09:00:00Z''\<rparr>,
      \<lparr>name = ''Documentation update'', assignedTo = ''Emily Davis'',
       startDate = ''2024-01-20'', endDate = ''2024-02-05'', priority = Low,
       description = Some ''Update project documentation'',
       id_task = ''3'', status = Todo, images = [],
       createdAt = ''2024-01-14T14:00:00Z'', updatedAt = ''2024-01-14T14:00:00Z''\<rparr>]"

definition initialState :: State where
  "initialState =
     \<lparr>tasks = initialTasks, activeTask = None, isModalOpen = False, editingTask = None,
      defaultPriority = Medium, searchQuery = '''', statusFilter = ''all'',
      dateFilter = None, toasts = []\<rparr>"

section \<open>Further data for the examples\<close>

definition sampleTask :: "string \<Rightarrow> Priority \<Rightarrow> Task" where
  "sampleTask i p =
     \<lparr>name = ''Task '' @ i, assignedTo = ''Sarah'', startDate = ''2024-01-15'',
      endDate = ''2024-01-25'', priority = p, description = None,
      id_task = i, status = Todo, images = [],
      createdAt = ''2024-01-10T10:00:00Z'', updatedAt = ''2024-01-10T10:00:00Z''\<rparr>"

definition sampleBoard :: "Task list" where
  "sampleBoard = [sampleTask ''a'' High, sampleTask ''b'' Low, sampleTask ''c'' High]"

definition sampleState :: State where
  "sampleState = initialState\<lparr>tasks := sampleBoard\<rparr>"

definition sampleDraft :: TaskFormData where
  "sampleDraft =
     \<lparr>name = ''Design'', assignedTo = ''Sarah'', startDate = ''2024-01-15'',
      endDate = ''2024-01-25'', priority = High, description = Some ''''\<rparr>"

definition editingState :: State where
  "editingState = handleEditTask sampleState (sampleTask ''b'' Low)"

text \<open>A parse function for the examples: three ISO strings with their UTC time values.\<close>

definition sampleParse :: "string \<Rightarrow> Date" where
  "sampleParse str =
     (if str = ''2024-01-01'' then Some 1704067200000
      else if str = ''2024-02-01'' then Some 1706745600000
      else if str = ''2024-01-10T10:00:00Z'' then Some 1704880800000
      else None)"

definition sampleForm :: "string \<Rightarrow> string \<Rightarrow> Form" where
  "sampleForm startStr endStr =
     \<lparr>formData = sampleDraft\<lparr>startDate := startStr, endDate := endStr\<rparr>,
      images_form = [], isSubmitting = False\<rparr>"

text \<open>
  Calendar days for the examples, in UTC: the day is the number of days since the epoch,
  and the text of a date is a sign and one stroke for each day.
\<close>

definition sampleLocalDay :: "int \<Rightarrow> int" where
  "sampleLocalDay ms = ms div 86400000"

definition sampleToDateString :: "Date \<Rightarrow> string" where
  "sampleToDateString d =
     (case d of
        None \<Rightarrow> ''Invalid Date''
      | Some ms \<Rightarrow>
          (if sampleLocalDay ms < 0 then CHR ''-'' else CHR ''+'')
            # replicate (nat \<bar>sampleLocalDay ms\<bar>) (CHR ''I''))"

text \<open>
  \<^verbatim>\<open>toLowerCase\<close> for the examples: the ASCII map, and the two Greek strings of the
  search example. In UTF-8 the capital letters alpha and sigma are CE 91 and CE A3, the
  small alpha is CE B1, the small sigma CF 83 and the small final sigma CF 82. The engine
  maps a capital sigma at the end of a word to the final sigma, and to the small sigma
  elsewhere.
\<close>

definition capitalAlphaSigmaAlpha :: string where
  "capitalAlphaSigmaAlpha = [CHR 0xCE, CHR 0x91, CHR 0xCE, CHR 0xA3, CHR 0xCE, CHR 0x91]"

definition capitalAlphaSigma :: string where
  "capitalAlphaSigma = [CHR 0xCE, CHR 0x91, CHR 0xCE, CHR 0xA3]"

definition sampleLower :: "string \<Rightarrow> string" where
  "sampleLower str =
     (if str = capitalAlphaSigmaAlpha
      then [CHR 0xCE, CHR 0xB1, CHR 0xCF, CHR 0x83, CHR 0xCE, CHR 0xB1]
      else if str = capitalAlphaSigma
      then [CHR 0xCE, CHR 0xB1, CHR 0xCF, CHR 0x82]
      else lowerASCII str)"

definition filterState :: State where
  "filterState = initialState\<lparr>searchQuery := ''SARAH'', statusFilter := ''todo'',
                              dateFilter := Some (Some 1704844800000)\<rparr>"

definition greekTask :: Task where
  "greekTask = (sampleTask ''g'' Medium)\<lparr>name := capitalAlphaSigmaAlpha\<rparr>"

definition greekState :: State where
  "greekState = initialState\<lparr>tasks := [greekTask], searchQuery := capitalAlphaSigma\<rparr>"

section \<open>Facts about the array helpers\<close>

lemma findIndex_lower: "- 1 \<le> findIndex P xs"
  by (induction xs) (auto simp: Let_def)

lemma findIndex_neg: "findIndex P xs < 0 \<Longrightarrow> x \<in> set xs \<Longrightarrow> \<not> P x"
  by (induction xs) (auto simp: Let_def split: if_splits)

lemma findIndex_lt: "findIndex P xs < int (length xs)"
  by (induction xs) (auto simp: Let_def)

lemma findIndex_found:
  "\<exists>x \<in> set xs. P x \<Longrightarrow> 0 \<le> findIndex P xs \<and> findIndex P xs < int (length xs)"
  using findIndex_neg[of P xs] findIndex_lt[of P xs] by (meson not_le)

lemma findIndex_nth:
  "0 \<le> findIndex P xs \<Longrightarrow> P (xs ! nat (findIndex P xs))"
proof (induction xs)
  case Nil
  then show ?case by simp
next
  case (Cons x xs)
  show ?case
  proof (cases "P x")
    case True
    then show ?thesis by simp
  next
    case False
    with Cons.prems have nn: "0 \<le> findIndex P xs"
      by (simp add: Let_def split: if_splits)
    with Cons.IH have "P (xs ! nat (findIndex P xs))" by simp
    with False nn show ?thesis
      by (simp add: Let_def nat_add_distrib)
  qed
qed

lemma arrayMove_in_range:
  assumes "i < length xs" and "j < length xs"
  shows "arrayMove xs (int i) (int j) =
           Some (take j (take i xs @ drop (Suc i) xs) @ [xs ! i]
                 @ drop j (take i xs @ drop (Suc i) xs))"
proof -
  define zs where "zs = take i xs @ drop (Suc i) xs"
  have k: "spliceStart (int (length xs)) (int i) = i"
    using assms by (simp add: spliceStart_def)
  have len: "length zs = length xs - 1"
    using assms by (simp add: zs_def)
  have pos: "spliceStart (int (length zs)) (if int j < 0 then int (length xs) + int j else int j) = j"
    using assms by (simp add: spliceStart_def len)
  have "arrayMove xs (int i) (int j) = Some (take j zs @ [xs ! i] @ drop j zs)"
    unfolding arrayMove_def k Let_def zs_def[symmetric] pos using assms(1) by simp
  then show ?thesis unfolding zs_def .
qed

lemma arrayMove_mset:
  "arrayMove xs from to = Some ys \<Longrightarrow> mset ys = mset xs"
proof -
  assume a: "arrayMove xs from to = Some ys"
  define k where "k = spliceStart (int (length xs)) from"
  from a have kl: "k < length xs"
    by (auto simp: arrayMove_def k_def Let_def split: if_splits)
  define zs where "zs = take k xs @ drop (Suc k) xs"
  from a kl obtain pos where ys: "ys = take pos zs @ [xs ! k] @ drop pos zs"
    by (auto simp: arrayMove_def k_def[symmetric] zs_def Let_def split: if_splits)
  have "mset (take pos zs) + mset (drop pos zs) = mset zs"
    by (metis append_take_drop_id mset_append)
  then have "mset ys = mset zs + {#xs ! k#}"
    unfolding ys by simp
  also have "\<dots> = mset (take k xs @ xs ! k # drop (Suc k) xs)"
    by (simp add: zs_def)
  also have "\<dots> = mset xs"
    using kl by (simp add: id_take_nth_drop[symmetric])
  finally show ?thesis .
qed

lemma arrayMove_defined:
  assumes "- int (length xs) \<le> from" and "from < int (length xs)"
  shows "\<exists>ys. arrayMove xs from to = Some ys"
proof -
  have "spliceStart (int (length xs)) from < length xs"
    using assms unfolding spliceStart_def by (cases "from < 0") simp_all
  then show ?thesis
    unfolding arrayMove_def Let_def by simp
qed

lemma arrayMove_priority:
  assumes "arrayMove (filter (\<lambda>t. priority t = p) ts) from to = Some ys"
  shows "filter (\<lambda>t. priority t = p) ys = ys" and "filter (\<lambda>t. priority t \<noteq> p) ys = []"
proof -
  from assms have "set ys = set (filter (\<lambda>t. priority t = p) ts)"
    by (metis arrayMove_mset set_mset_mset)
  then have all: "\<forall>t \<in> set ys. priority t = p" by auto
  from all show "filter (\<lambda>t. priority t = p) ys = ys" by (simp add: filter_id_conv)
  from all show "filter (\<lambda>t. priority t \<noteq> p) ys = []" by (simp add: filter_empty_conv)
qed

section \<open>Reordering\<close>

text \<open>
  C2. For every collection, priority \<open>P\<close> and indices, where the first index selects a task
  of the subsequence of priority \<open>P\<close> (or the two indices are equal), \<open>reorder\<close> returns a
  collection whose tasks of priority \<open>P\<close> are the same multiset as before (so their ids
  are, too), and whose tasks of the other priorities are the same list, in the same order.
\<close>

theorem reorder_preserves:
  assumes "from = to \<or> (- int (length (filter (\<lambda>t. priority t = p) ts)) \<le> from
                          \<and> from < int (length (filter (\<lambda>t. priority t = p) ts)))"
  shows "\<exists>ts'. reorder ts p from to = Some ts'
            \<and> mset (filter (\<lambda>t. priority t = p) ts') = mset (filter (\<lambda>t. priority t = p) ts)
            \<and> mset (map id_task (filter (\<lambda>t. priority t = p) ts'))
                = mset (map id_task (filter (\<lambda>t. priority t = p) ts))
            \<and> filter (\<lambda>t. priority t \<noteq> p) ts' = filter (\<lambda>t. priority t \<noteq> p) ts
            \<and> mset ts' = mset ts"
proof (cases "from = to")
  case True
  then show ?thesis by (simp add: reorder_def)
next
  case False
  with assms obtain ys where ys: "arrayMove (filter (\<lambda>t. priority t = p) ts) from to = Some ys"
    using arrayMove_defined by blast
  have r: "reorder ts p from to = Some (filter (\<lambda>t. priority t \<noteq> p) ts @ ys)"
    using False ys by (simp add: reorder_def)
  have m: "mset ys = mset (filter (\<lambda>t. priority t = p) ts)"
    using ys by (rule arrayMove_mset)
  have f1: "filter (\<lambda>t. priority t = p) (filter (\<lambda>t. priority t \<noteq> p) ts @ ys) = ys"
    using arrayMove_priority(1)[OF ys] by simp
  have f2: "filter (\<lambda>t. priority t \<noteq> p) (filter (\<lambda>t. priority t \<noteq> p) ts @ ys)
              = filter (\<lambda>t. priority t \<noteq> p) ts"
    using arrayMove_priority(2)[OF ys] by simp
  have all: "mset (filter (\<lambda>t. priority t \<noteq> p) ts @ ys) = mset ts"
  proof -
    have "mset ts = mset (filter (\<lambda>t. priority t = p) ts) + mset (filter (\<lambda>t. priority t \<noteq> p) ts)"
      by (induction ts) auto
    then show ?thesis using m by simp
  qed
  show ?thesis
    unfolding r using m f1 f2 all by simp
qed

text \<open>The theorem at the board a (high), b (low), c (high), moving index 0 to index 1.\<close>

theorem reorder_preserves_witness:
  "(- int (length (filter (\<lambda>t. priority t = High) sampleBoard)) \<le> 0
      \<and> (0::int) < int (length (filter (\<lambda>t. priority t = High) sampleBoard)))
   \<and> (\<exists>ts'. reorder sampleBoard High 0 1 = Some ts'
            \<and> mset (filter (\<lambda>t. priority t = High) ts') = mset (filter (\<lambda>t. priority t = High) sampleBoard)
            \<and> mset (map id_task (filter (\<lambda>t. priority t = High) ts'))
                = mset (map id_task (filter (\<lambda>t. priority t = High) sampleBoard))
            \<and> filter (\<lambda>t. priority t \<noteq> High) ts' = filter (\<lambda>t. priority t \<noteq> High) sampleBoard
            \<and> mset ts' = mset sampleBoard)"
proof -
  have h: "- int (length (filter (\<lambda>t. priority t = High) sampleBoard)) \<le> 0
      \<and> (0::int) < int (length (filter (\<lambda>t. priority t = High) sampleBoard))"
    by (simp add: sampleBoard_def sampleTask_def)
  then have "(0::int) = 1 \<or> (- int (length (filter (\<lambda>t. priority t = High) sampleBoard)) \<le> 0
      \<and> (0::int) < int (length (filter (\<lambda>t. priority t = High) sampleBoard)))" by simp
  from reorder_preserves[OF this] h show ?thesis by simp
qed

text \<open>
  C1, as stated, fails. On the board a (high), b (low), c (high), moving index 0 of the
  high tasks to index 1 gives b, c, a: the low task b has moved from index 1 to index 0
  and the high tasks are clustered behind it. Writing the moved subsequence back into the
  positions the high tasks occupied would give c, b, a.
\<close>

theorem reorder_interleaving_counterexample:
  "reorder sampleBoard High 0 1
     = Some [sampleTask ''b'' Low, sampleTask ''c'' High, sampleTask ''a'' High]
   \<and> reorder_positional sampleBoard High 0 1
     = Some [sampleTask ''c'' High, sampleTask ''b'' Low, sampleTask ''a'' High]
   \<and> reorder sampleBoard High 0 1 \<noteq> reorder_positional sampleBoard High 0 1"
  by (simp add: reorder_def reorder_positional_def arrayMove_def spliceStart_def
        sampleBoard_def sampleTask_def)

text \<open>
  C1, amended. For every collection, priority \<open>P\<close> and two different indices into the
  subsequence of the tasks of priority \<open>P\<close>, \<open>reorder\<close> removes the task at the first
  index from that subsequence and reinserts it at the second (the moved task is at
  \<open>toIndex\<close>, and without it the subsequence is the old one without the task at
  \<open>fromIndex\<close>); the new collection is the tasks of the other priorities, in their old
  relative order, followed by the moved subsequence.
\<close>

theorem reorder_clusters:
  assumes "i < length (filter (\<lambda>t. priority t = p) ts)"
    and "j < length (filter (\<lambda>t. priority t = p) ts)"
    and "i \<noteq> j"
  shows "\<exists>ys. reorder ts p (int i) (int j) = Some (filter (\<lambda>t. priority t \<noteq> p) ts @ ys)
           \<and> length ys = length (filter (\<lambda>t. priority t = p) ts)
           \<and> ys ! j = filter (\<lambda>t. priority t = p) ts ! i
           \<and> take j ys @ drop (Suc j) ys
               = take i (filter (\<lambda>t. priority t = p) ts) @ drop (Suc i) (filter (\<lambda>t. priority t = p) ts)"
proof -
  define ps where "ps = filter (\<lambda>t. priority t = p) ts"
  define zs where "zs = take i ps @ drop (Suc i) ps"
  define ys where "ys = take j zs @ [ps ! i] @ drop j zs"
  have am: "arrayMove ps (int i) (int j) = Some ys"
    using arrayMove_in_range[of i ps j] assms by (simp add: ps_def zs_def ys_def)
  have lz: "length zs = length ps - 1"
    using assms(1) by (simp add: zs_def ps_def)
  have jz: "j \<le> length zs"
    using assms(2) lz by (simp add: ps_def)
  have r: "reorder ts p (int i) (int j) = Some (filter (\<lambda>t. priority t \<noteq> p) ts @ ys)"
    using assms(3) am by (simp add: reorder_def ps_def)
  have l: "length ys = length ps"
    using jz lz assms(1) by (simp add: ys_def ps_def)
  have n: "ys ! j = ps ! i"
    using jz by (simp add: ys_def nth_append)
  have t: "take j ys @ drop (Suc j) ys = zs"
    using jz by (simp add: ys_def)
  show ?thesis
    using r l n t unfolding ps_def zs_def by blast
qed

text \<open>The amended C1 at the board a (high), b (low), c (high), indices 0 and 1.\<close>

theorem reorder_clusters_witness:
  "(0::nat) < length (filter (\<lambda>t. priority t = High) sampleBoard)
   \<and> (1::nat) < length (filter (\<lambda>t. priority t = High) sampleBoard)
   \<and> (0::nat) \<noteq> 1
   \<and> (\<exists>ys. reorder sampleBoard High (int 0) (int 1)
              = Some (filter (\<lambda>t. priority t \<noteq> High) sampleBoard @ ys)
           \<and> length ys = length (filter (\<lambda>t. priority t = High) sampleBoard)
           \<and> ys ! 1 = filter (\<lambda>t. priority t = High) sampleBoard ! 0
           \<and> take 1 ys @ drop (Suc 1) ys
               = take 0 (filter (\<lambda>t. priority t = High) sampleBoard)
                 @ drop (Suc 0) (filter (\<lambda>t. priority t = High) sampleBoard))"
proof -
  have h0: "(0::nat) < length (filter (\<lambda>t. priority t = High) sampleBoard)"
    by (simp add: sampleBoard_def sampleTask_def)
  have h1: "(1::nat) < length (filter (\<lambda>t. priority t = High) sampleBoard)"
    by (simp add: sampleBoard_def sampleTask_def)
  have h2: "(0::nat) \<noteq> 1" by simp
  from reorder_clusters[OF h0 h1 h2] h0 h1 h2 show ?thesis by blast
qed

section \<open>Drag interaction\<close>

lemma find_filter_same:
  "find P xs = Some x \<Longrightarrow> Q x \<Longrightarrow> find P (filter Q xs) = Some x"
  by (induction xs) (auto split: if_splits)

lemma findIndex_find:
  "find P xs = Some x \<Longrightarrow>
     0 \<le> findIndex P xs \<and> findIndex P xs < int (length xs) \<and> xs ! nat (findIndex P xs) = x"
proof (induction xs)
  case Nil
  then show ?case by simp
next
  case (Cons y ys)
  show ?case
  proof (cases "P y")
    case True
    with Cons.prems show ?thesis by simp
  next
    case False
    with Cons.prems have "find P ys = Some x" by simp
    with Cons.IH have ih: "0 \<le> findIndex P ys" "findIndex P ys < int (length ys)"
      "ys ! nat (findIndex P ys) = x" by simp_all
    with False show ?thesis
      by (simp add: Let_def nat_add_distrib)
  qed
qed

lemma find_Some_holds: "find P xs = Some x \<Longrightarrow> P x"
  by (induction xs) (auto split: if_splits)

lemma priorityOfId_tag: "priorityOfId (priorityTag p) = Some p"
  by (cases p) (simp_all add: priorityOfId_def priorities_def)

lemma priorityOfId_Some: "priorityOfId x = Some p \<Longrightarrow> x = priorityTag p"
  unfolding priorityOfId_def by (drule find_Some_holds) simp

lemma priorityOfId_None: "(\<forall>p. x \<noteq> priorityTag p) \<Longrightarrow> priorityOfId x = None"
  using priorityOfId_Some by (cases "priorityOfId x") auto

lemma reorder_defined:
  assumes "- int (length (filter (\<lambda>t. priority t = p) ts)) \<le> from"
    and "from < int (length (filter (\<lambda>t. priority t = p) ts))"
  shows "\<exists>ts'. reorder ts p from to = Some ts'"
proof -
  obtain ys where "arrayMove (filter (\<lambda>t. priority t = p) ts) from to = Some ys"
    using arrayMove_defined[OF assms] by blast
  then show ?thesis by (simp add: reorder_def)
qed

text \<open>
  C7. Every drag end returns a state, clears the active-task marker and changes no cell
  but the marker and the collection. If the target identifies another task sharing the
  active task's priority, the collection becomes what \<open>reorder\<close> returns for the positions
  of the two tasks in the subsequence of that priority (both in range and different);
  otherwise (no target, a column, an unknown id, a task of another priority, the active
  task itself, or an unknown active id) the collection is unchanged.
\<close>

theorem handleDragEnd_outcome:
  "\<exists>s'. handleDragEnd s activeId over = Some s'
       \<and> activeTask s' = None
       \<and> s' = s\<lparr>activeTask := None, tasks := tasks s'\<rparr>
       \<and> (if dropsOnPeer s activeId over
          then (\<exists>overId active overTask.
                  over = Some overId
                \<and> find (\<lambda>t. id_task t = activeId) (tasks s) = Some active
                \<and> find (\<lambda>t. id_task t = overId) (tasks s) = Some overTask
                \<and> (let priorityTasks = filter (\<lambda>t. priority t = priority active) (tasks s);
                        i = findIndex (\<lambda>t. id_task t = activeId) priorityTasks;
                        j = findIndex (\<lambda>t. id_task t = overId) priorityTasks
                    in 0 \<le> i \<and> i < int (length priorityTasks)
                     \<and> 0 \<le> j \<and> j < int (length priorityTasks)
                     \<and> i \<noteq> j
                     \<and> priorityTasks ! nat i = active
                     \<and> priorityTasks ! nat j = overTask
                     \<and> reorder (tasks s) (priority active) i j = Some (tasks s')))
          else tasks s' = tasks s)"
proof (cases over)
  case None
  then show ?thesis by (simp add: handleDragEnd_def dropsOnPeer_def)
next
  case (Some overId)
  note over = Some
  show ?thesis
  proof (cases "find (\<lambda>t. id_task t = activeId) (tasks s)")
    case None
    with over show ?thesis by (simp add: handleDragEnd_def dropsOnPeer_def)
  next
    case (Some active)
    note fa = Some
    show ?thesis
    proof (cases "find (\<lambda>t. id_task t = overId) (tasks s)")
      case None
      with over fa show ?thesis by (simp add: handleDragEnd_def dropsOnPeer_def)
    next
      case (Some overTask)
      note fo = Some
      show ?thesis
      proof (cases "priority active = priority overTask")
        case False
        with over fa fo show ?thesis by (simp add: handleDragEnd_def dropsOnPeer_def)
      next
        case True
        define ps where "ps = filter (\<lambda>t. priority t = priority active) (tasks s)"
        define i where "i = findIndex (\<lambda>t. id_task t = activeId) ps"
        define j where "j = findIndex (\<lambda>t. id_task t = overId) ps"
        have hd: "handleDragEnd s activeId over =
                    map_option (\<lambda>ts. s\<lparr>activeTask := None, tasks := ts\<rparr>)
                      (reorder (tasks s) (priority active) i j)"
          using over fa fo True by (simp add: handleDragEnd_def Let_def ps_def i_def j_def)
        have "find (\<lambda>t. id_task t = activeId) ps = Some active"
          unfolding ps_def using fa by (rule find_filter_same) simp
        then have ia: "0 \<le> i" "i < int (length ps)" "ps ! nat i = active"
          using findIndex_find[of "\<lambda>t. id_task t = activeId" ps active] by (simp_all add: i_def)
        have "find (\<lambda>t. id_task t = overId) ps = Some overTask"
          unfolding ps_def using fo by (rule find_filter_same) (simp add: True)
        then have jo: "0 \<le> j" "j < int (length ps)" "ps ! nat j = overTask"
          using findIndex_find[of "\<lambda>t. id_task t = overId" ps overTask] by (simp_all add: j_def)
        have ida: "id_task active = activeId" using find_Some_holds[OF fa] .
        have ido: "id_task overTask = overId" using find_Some_holds[OF fo] .
        show ?thesis
        proof (cases "overId = activeId")
          case True
          then have "i = j" by (simp add: i_def j_def)
          then have "handleDragEnd s activeId over = Some (s\<lparr>activeTask := None\<rparr>)"
            unfolding hd by (simp add: reorder_def)
          moreover have "\<not> dropsOnPeer s activeId over"
            using over True by (simp add: dropsOnPeer_def)
          ultimately show ?thesis by simp
        next
          case False
          have ij: "i \<noteq> j"
          proof
            assume "i = j"
            with ia(3) jo(3) have "active = overTask" by simp
            with ida ido False show False by simp
          qed
          obtain ts' where r: "reorder (tasks s) (priority active) i j = Some ts'"
            using reorder_defined[of "priority active" "tasks s" i j] ia by (auto simp: ps_def)
          have d: "dropsOnPeer s activeId over"
            using over fa fo True False by (simp add: dropsOnPeer_def)
          have "handleDragEnd s activeId over = Some (s\<lparr>activeTask := None, tasks := ts'\<rparr>)"
            unfolding hd r by simp
          then show ?thesis
            using d over fa fo ia jo ij r
            by (simp add: Let_def ps_def[symmetric] i_def[symmetric] j_def[symmetric])
        qed
      qed
    qed
  qed
qed


text \<open>
  C7 on the board a (high), b (low), c (high): dropping a on c reorders, dropping a on b
  (another priority) only clears the marker.
\<close>

theorem handleDragEnd_outcome_witness:
  "dropsOnPeer sampleState ''a'' (Some ''c'')
   \<and> handleDragEnd sampleState ''a'' (Some ''c'')
       = Some (sampleState\<lparr>activeTask := None,
                 tasks := [sampleTask ''b'' Low, sampleTask ''c'' High, sampleTask ''a'' High]\<rparr>)
   \<and> \<not> dropsOnPeer sampleState ''a'' (Some ''b'')
   \<and> handleDragEnd sampleState ''a'' (Some ''b'') = Some (sampleState\<lparr>activeTask := None\<rparr>)"
  using handleDragEnd_outcome[of sampleState "''a''" "Some ''c''"]
    handleDragEnd_outcome[of sampleState "''a''" "Some ''b''"]
  by (simp add: dropsOnPeer_def handleDragEnd_def reorder_def arrayMove_def spliceStart_def
        sampleState_def initialState_def sampleBoard_def sampleTask_def Let_def)

text \<open>
  C6. When the active id is found, the target id is the tag of a priority and that
  priority is not the one of the task found, drag over changes only the collection: it
  keeps its length, every task with the active id gets the target priority and the new
  \<open>updatedAt\<close> and keeps its other fields, and every other task stays the same at the
  same index. When the target is missing, is the tag of the task's own priority or is no
  priority tag, or when the active id is not found, the state is unchanged.
\<close>

theorem handleDragOver_effect:
  "(find (\<lambda>t. id_task t = activeId) (tasks s) = Some active
      \<and> over = Some (priorityTag p) \<and> p \<noteq> priority active \<longrightarrow>
      (\<exists>ts'. handleDragOver now s activeId over = s\<lparr>tasks := ts'\<rparr>
           \<and> length ts' = length (tasks s)
           \<and> (\<forall>k < length (tasks s).
                 ts' ! k = (if id_task (tasks s ! k) = activeId
                            then (tasks s ! k)\<lparr>priority := p, updatedAt := now\<rparr>
                            else tasks s ! k))))
   \<and> (find (\<lambda>t. id_task t = activeId) (tasks s) = Some active
      \<and> (over = None \<or> over = Some (priorityTag (priority active))
           \<or> (\<exists>overId. over = Some overId \<and> (\<forall>q. overId \<noteq> priorityTag q))) \<longrightarrow>
      handleDragOver now s activeId over = s)
   \<and> (find (\<lambda>t. id_task t = activeId) (tasks s) = None \<longrightarrow>
      handleDragOver now s activeId over = s)"
proof (intro conjI impI)
  assume a: "find (\<lambda>t. id_task t = activeId) (tasks s) = Some active
      \<and> over = Some (priorityTag p) \<and> p \<noteq> priority active"
  define ts' where "ts' = map (\<lambda>task. if id_task task = activeId
                            then task\<lparr>priority := p, updatedAt := now\<rparr>
                            else task) (tasks s)"
  have "handleDragOver now s activeId over = s\<lparr>tasks := ts'\<rparr>"
    using a by (auto simp: handleDragOver_def priorityOfId_tag ts'_def)
  moreover have "length ts' = length (tasks s)" by (simp add: ts'_def)
  moreover have "\<forall>k < length (tasks s).
                 ts' ! k = (if id_task (tasks s ! k) = activeId
                            then (tasks s ! k)\<lparr>priority := p, updatedAt := now\<rparr>
                            else tasks s ! k)"
    by (simp add: ts'_def)
  ultimately show "\<exists>ts'. handleDragOver now s activeId over = s\<lparr>tasks := ts'\<rparr>
           \<and> length ts' = length (tasks s)
           \<and> (\<forall>k < length (tasks s).
                 ts' ! k = (if id_task (tasks s ! k) = activeId
                            then (tasks s ! k)\<lparr>priority := p, updatedAt := now\<rparr>
                            else tasks s ! k))"
    by blast
next
  assume a: "find (\<lambda>t. id_task t = activeId) (tasks s) = Some active
      \<and> (over = None \<or> over = Some (priorityTag (priority active))
           \<or> (\<exists>overId. over = Some overId \<and> (\<forall>q. overId \<noteq> priorityTag q)))"
  then consider "over = None" | "over = Some (priorityTag (priority active))"
    | overId where "over = Some overId" "\<forall>q. overId \<noteq> priorityTag q" by blast
  then show "handleDragOver now s activeId over = s"
  proof cases
    case 1
    then show ?thesis by (simp add: handleDragOver_def)
  next
    case 2
    with a show ?thesis by (simp add: handleDragOver_def priorityOfId_tag)
  next
    case 3
    with a show ?thesis by (simp add: handleDragOver_def priorityOfId_None)
  qed
next
  assume "find (\<lambda>t. id_task t = activeId) (tasks s) = None"
  then show "handleDragOver now s activeId over = s"
    by (simp add: handleDragOver_def split: option.splits)
qed

text \<open>
  C6 on the board a (high), b (low), c (high): dragging b over the urgent column, over its
  own column, over nothing, and dragging an unknown id.
\<close>

theorem handleDragOver_effect_witness:
  "find (\<lambda>t. id_task t = ''b'') (tasks sampleState) = Some (sampleTask ''b'' Low)
   \<and> Urgent \<noteq> priority (sampleTask ''b'' Low)
   \<and> handleDragOver ''2024-03-01T12:00:00.000Z'' sampleState ''b'' (Some (priorityTag Urgent))
       = sampleState\<lparr>tasks :=
           [sampleTask ''a'' High,
            (sampleTask ''b'' Low)\<lparr>priority := Urgent, updatedAt := ''2024-03-01T12:00:00.000Z''\<rparr>,
            sampleTask ''c'' High]\<rparr>
   \<and> handleDragOver ''2024-03-01T12:00:00.000Z'' sampleState ''b'' (Some (priorityTag Low)) = sampleState
   \<and> handleDragOver ''2024-03-01T12:00:00.000Z'' sampleState ''b'' None = sampleState
   \<and> handleDragOver ''2024-03-01T12:00:00.000Z'' sampleState ''z'' (Some (priorityTag Urgent)) = sampleState"
  using handleDragOver_effect[of "''b''" sampleState "sampleTask ''b'' Low"
          "Some (priorityTag Urgent)" Urgent "''2024-03-01T12:00:00.000Z''"]
  by (simp add: handleDragOver_def priorityOfId_def priorities_def
        sampleState_def initialState_def sampleBoard_def sampleTask_def)

section \<open>Task store handlers\<close>

lemma find_None_absent: "find P xs = None \<longleftrightarrow> (\<forall>x \<in> set xs. \<not> P x)"
  by (induction xs) auto

lemma filter_absent_id: "taskId \<notin> id_task ` set ts \<Longrightarrow> filter (\<lambda>t. id_task t \<noteq> taskId) ts = ts"
  by (induction ts) auto

text \<open>
  C3, as stated, fails. No task of the sample data has the id 9, and deleting the id 9
  logs the toast "Task Deleted" of the default variant, whose text says the task
  \<^verbatim>\<open>undefined\<close> has been deleted successfully: a success, not a failure. Deleting the
  id 3 twice logs the success toast twice.
\<close>

theorem handleDeleteTask_absent_counterexample:
  \<open>find (\<lambda>t. id_task t = ''9'') (tasks initialState) = None
   \<and> handleDeleteTask initialState ''9''
       = initialState\<lparr>toasts :=
           [\<lparr>title = ''Task Deleted'',
             description_toast = ''Task "undefined" has been deleted successfully.'',
             variant = Default\<rparr>]\<rparr>
   \<and> toasts (handleDeleteTask (handleDeleteTask initialState ''3'') ''3'')
       = [\<lparr>title = ''Task Deleted'',
           description_toast = ''Task "Documentation update" has been deleted successfully.'',
           variant = Default\<rparr>,
          \<lparr>title = ''Task Deleted'',
           description_toast = ''Task "undefined" has been deleted successfully.'',
           variant = Default\<rparr>]\<close>
  by (simp add: handleDeleteTask_def nameOrUndefined_def initialState_def initialTasks_def)

text \<open>
  C3, amended. For every collection and every id not present in it, delete leaves the
  collection (and every other cell of the state) unchanged and reports success: it logs
  the "Task Deleted" toast of the default variant, and no error. A second delete of the
  same id is such a delete, so it is reported as a success too.
\<close>

theorem handleDeleteTask_absent:
  assumes "taskId \<notin> id_task ` set (tasks s)"
  shows \<open>handleDeleteTask s taskId
           = s\<lparr>toasts := toasts s @
                [\<lparr>title = ''Task Deleted'',
                  description_toast = ''Task "undefined" has been deleted successfully.'',
                  variant = Default\<rparr>]\<rparr>
         \<and> tasks (handleDeleteTask s taskId) = tasks s
         \<and> handleDeleteTask (handleDeleteTask s0 otherId) otherId
           = (handleDeleteTask s0 otherId)\<lparr>toasts := toasts (handleDeleteTask s0 otherId) @
                [\<lparr>title = ''Task Deleted'',
                  description_toast = ''Task "undefined" has been deleted successfully.'',
                  variant = Default\<rparr>]\<rparr>\<close>
proof -
  have absent: \<open>handleDeleteTask s' i
           = s'\<lparr>toasts := toasts s' @
                [\<lparr>title = ''Task Deleted'',
                  description_toast = ''Task "undefined" has been deleted successfully.'',
                  variant = Default\<rparr>]\<rparr>\<close>
    if "i \<notin> id_task ` set (tasks s')" for s' i
  proof -
    have f: "find (\<lambda>t. id_task t = i) (tasks s') = None"
      using that by (auto simp: find_None_absent)
    have g: "filter (\<lambda>t. id_task t \<noteq> i) (tasks s') = tasks s'"
      using that by (rule filter_absent_id)
    show ?thesis
      by (simp add: handleDeleteTask_def f g nameOrUndefined_def)
  qed
  have gone: "otherId \<notin> id_task ` set (tasks (handleDeleteTask s0 otherId))"
    by (auto simp: handleDeleteTask_def)
  show ?thesis
    using absent[OF assms] absent[OF gone] by simp
qed

text \<open>
  The amended C3 on the sample data, deleting the id 9.
\<close>

theorem handleDeleteTask_absent_witness:
  \<open>''9'' \<notin> id_task ` set (tasks initialState)
   \<and> handleDeleteTask initialState ''9''
           = initialState\<lparr>toasts := toasts initialState @
                [\<lparr>title = ''Task Deleted'',
                  description_toast = ''Task "undefined" has been deleted successfully.'',
                  variant = Default\<rparr>]\<rparr>
   \<and> tasks (handleDeleteTask initialState ''9'') = tasks initialState
   \<and> tasks (handleDeleteTask (handleDeleteTask initialState ''3'') ''3'')
       = tasks (handleDeleteTask initialState ''3'')\<close>
proof -
  have h: "''9'' \<notin> id_task ` set (tasks initialState)"
    by (simp add: initialState_def initialTasks_def)
  have "tasks (handleDeleteTask (handleDeleteTask initialState ''3'') ''3'')
       = tasks (handleDeleteTask initialState ''3'')"
    using handleDeleteTask_absent[OF h, of initialState "''3''"] by simp
  with handleDeleteTask_absent[OF h, of initialState "''3''"] h show ?thesis by simp
qed

text \<open>
  C4, as stated, fails on the fresh id. \<^verbatim>\<open>generateId\<close> returns the digits of
  \<^verbatim>\<open>Math.random()\<close> in base 36, which are 9 when the random number is 0.25, and the
  handler does not look at the ids in use: two creates that draw the same number give two
  tasks with the same id.
\<close>

theorem handleSaveTask_create_counterexample:
  "editingTask initialState = None
   \<and> map id_task (tasks (handleSaveTask ''2024-03-01T12:00:05.000Z'' ''9''
        (handleSaveTask ''2024-03-01T12:00:00.000Z'' ''9'' initialState sampleDraft [])
        sampleDraft []))
     = [''1'', ''2'', ''3'', ''9'', ''9'']"
  by (simp add: handleSaveTask_def initialState_def initialTasks_def sampleDraft_def)

text \<open>
  C4, amended. When no task is being edited, saving a draft appends one task to the end of
  the collection and changes nothing else; the task has the status todo, \<open>createdAt\<close> and
  \<open>updatedAt\<close> equal to the timestamp of the call, the draft's six fields and the images
  verbatim, and the id \<^verbatim>\<open>generateId\<close> returned. The ids of the collection stay
  distinct exactly when they were distinct and the generated id is not in use.
\<close>

theorem handleSaveTask_create:
  assumes "editingTask s = None"
  shows "\<exists>t. handleSaveTask timestamp newId s taskData imgs = s\<lparr>tasks := tasks s @ [t]\<rparr>
           \<and> status t = Todo
           \<and> createdAt t = timestamp \<and> updatedAt t = timestamp
           \<and> id_task t = newId
           \<and> name t = name taskData \<and> assignedTo t = assignedTo taskData
           \<and> startDate t = startDate taskData \<and> endDate t = endDate taskData
           \<and> priority t = priority taskData \<and> description t = description taskData
           \<and> images t = imgs
           \<and> (distinct (map id_task (tasks s @ [t]))
                \<longleftrightarrow> distinct (map id_task (tasks s)) \<and> newId \<notin> id_task ` set (tasks s))"
  using assms by (auto simp: handleSaveTask_def)

text \<open>
  The amended C4 on the sample data, with a generated id that is not in use.
\<close>

theorem handleSaveTask_create_witness:
  "editingTask initialState = None
   \<and> (\<exists>t. handleSaveTask ''2024-03-01T12:00:00.000Z'' ''k3j9x0q1z'' initialState sampleDraft []
             = initialState\<lparr>tasks := tasks initialState @ [t]\<rparr>
           \<and> status t = Todo
           \<and> createdAt t = ''2024-03-01T12:00:00.000Z'' \<and> updatedAt t = ''2024-03-01T12:00:00.000Z''
           \<and> id_task t = ''k3j9x0q1z''
           \<and> name t = ''Design'' \<and> images t = []
           \<and> distinct (map id_task (tasks initialState @ [t])))"
proof -
  have h: "editingTask initialState = None" by (simp add: initialState_def)
  have d: "distinct (map id_task (tasks initialState)) \<and> ''k3j9x0q1z'' \<notin> id_task ` set (tasks initialState)"
    by (simp add: initialState_def initialTasks_def)
  from handleSaveTask_create[OF h, of "''2024-03-01T12:00:00.000Z''" "''k3j9x0q1z''" sampleDraft "[]"] h d
  show ?thesis by (auto simp: sampleDraft_def)
qed

text \<open>
  C9. When a task is being edited, saving a draft changes only the collection; it keeps its
  length, and every task keeps its id, its \<open>createdAt\<close> and its status. A task with the id
  of the edited task gets the draft's name, assignee, dates and priority, the draft's
  description when the draft has one, the images, and the timestamp as \<open>updatedAt\<close>; every
  other task is unchanged, at the same index.
\<close>

theorem handleSaveTask_update:
  assumes "editingTask s = Some editing"
  shows "\<exists>ts'. handleSaveTask timestamp newId s taskData imgs = s\<lparr>tasks := ts'\<rparr>
           \<and> length ts' = length (tasks s)
           \<and> (\<forall>k < length (tasks s).
                 id_task (ts' ! k) = id_task (tasks s ! k)
               \<and> createdAt (ts' ! k) = createdAt (tasks s ! k)
               \<and> status (ts' ! k) = status (tasks s ! k)
               \<and> (if id_task (tasks s ! k) = id_task editing
                  then name (ts' ! k) = name taskData
                     \<and> assignedTo (ts' ! k) = assignedTo taskData
                     \<and> startDate (ts' ! k) = startDate taskData
                     \<and> endDate (ts' ! k) = endDate taskData
                     \<and> priority (ts' ! k) = priority taskData
                     \<and> description (ts' ! k)
                         = (case description taskData of
                              None \<Rightarrow> description (tasks s ! k) | Some d \<Rightarrow> Some d)
                     \<and> images (ts' ! k) = imgs
                     \<and> updatedAt (ts' ! k) = timestamp
                  else ts' ! k = tasks s ! k))"
proof -
  define ts' where "ts' = map (\<lambda>task. if id_task task = id_task editing
                                   then mergeTask task taskData imgs timestamp
                                   else task) (tasks s)"
  have "handleSaveTask timestamp newId s taskData imgs = s\<lparr>tasks := ts'\<rparr>"
    using assms by (simp add: handleSaveTask_def ts'_def)
  moreover have "length ts' = length (tasks s)" by (simp add: ts'_def)
  moreover have "\<forall>k < length (tasks s).
                 id_task (ts' ! k) = id_task (tasks s ! k)
               \<and> createdAt (ts' ! k) = createdAt (tasks s ! k)
               \<and> status (ts' ! k) = status (tasks s ! k)
               \<and> (if id_task (tasks s ! k) = id_task editing
                  then name (ts' ! k) = name taskData
                     \<and> assignedTo (ts' ! k) = assignedTo taskData
                     \<and> startDate (ts' ! k) = startDate taskData
                     \<and> endDate (ts' ! k) = endDate taskData
                     \<and> priority (ts' ! k) = priority taskData
                     \<and> description (ts' ! k)
                         = (case description taskData of
                              None \<Rightarrow> description (tasks s ! k) | Some d \<Rightarrow> Some d)
                     \<and> images (ts' ! k) = imgs
                     \<and> updatedAt (ts' ! k) = timestamp
                  else ts' ! k = tasks s ! k)"
    by (simp add: ts'_def mergeTask_def)
  ultimately show ?thesis by blast
qed

text \<open>
  C9 on the board a (high), b (low), c (high), editing b.
\<close>

theorem handleSaveTask_update_witness:
  "editingTask editingState = Some (sampleTask ''b'' Low)
   \<and> handleSaveTask ''2024-03-01T12:00:00.000Z'' ''k3j9x0q1z'' editingState sampleDraft [''img'']
      = editingState\<lparr>tasks :=
          [sampleTask ''a'' High,
           \<lparr>name = ''Design'', assignedTo = ''Sarah'', startDate = ''2024-01-15'',
            endDate = ''2024-01-25'', priority = High, description = Some '''',
            id_task = ''b'', status = Todo, images = [''img''],
            createdAt = ''2024-01-10T10:00:00Z'', updatedAt = ''2024-03-01T12:00:00.000Z''\<rparr>,
           sampleTask ''c'' High]\<rparr>"
  using handleSaveTask_update[of editingState "sampleTask ''b'' Low" "''2024-03-01T12:00:00.000Z''"
      "''k3j9x0q1z''" sampleDraft "[''img'']"]
  by (simp add: handleSaveTask_def mergeTask_def editingState_def handleEditTask_def
        sampleState_def initialState_def sampleBoard_def sampleTask_def sampleDraft_def)

section \<open>Form submit\<close>

lemma savedToast_variant: "variant (savedToast task n) = Default"
  by (simp add: savedToast_def)

lemma rejection_variant:
  "variant missingInformation = Destructive" "variant invalidDates = Destructive"
  by (simp_all add: missingInformation_def invalidDates_def)

text \<open>
  C5. If the name or the assignee of the draft trims to the empty string, or the parsed
  start date is greater than the parsed end date, submit is rejected: it logs one toast of
  the destructive variant ("Missing Information" or "Invalid Dates"), calls neither
  \<^verbatim>\<open>onSave\<close> nor \<^verbatim>\<open>onClose\<close>, and leaves the collection, every other cell of the
  manager's state and the form as they were.
\<close>

theorem handleSubmit_rejects:
  assumes "trim (name (formData f)) = [] \<or> trim (assignedTo (formData f)) = []
           \<or> dateGreater (newDate parse (startDate (formData f)))
                          (newDate parse (endDate (formData f)))"
  shows "\<exists>t. handleSubmit parse timestamp newId s f = (s\<lparr>toasts := toasts s @ [t]\<rparr>, f)
           \<and> (t = missingInformation \<or> t = invalidDates)
           \<and> variant t = Destructive
           \<and> tasks (fst (handleSubmit parse timestamp newId s f)) = tasks s"
proof (cases "trim (name (formData f)) = [] \<or> trim (assignedTo (formData f)) = []")
  case True
  then have "handleSubmit parse timestamp newId s f = (s\<lparr>toasts := toasts s @ [missingInformation]\<rparr>, f)"
    by (simp add: handleSubmit_def)
  then show ?thesis
    by (intro exI[of _ missingInformation]) (simp add: rejection_variant)
next
  case False
  with assms have "handleSubmit parse timestamp newId s f = (s\<lparr>toasts := toasts s @ [invalidDates]\<rparr>, f)"
    by (simp add: handleSubmit_def)
  then show ?thesis
    by (intro exI[of _ invalidDates]) (simp add: rejection_variant)
qed

text \<open>
  C5 on the sample data, with the start date 2024-02-01 and the end date 2024-01-01.
\<close>

theorem handleSubmit_rejects_witness:
  "dateGreater (newDate sampleParse (startDate (formData (sampleForm ''2024-02-01'' ''2024-01-01''))))
               (newDate sampleParse (endDate (formData (sampleForm ''2024-02-01'' ''2024-01-01''))))
   \<and> handleSubmit sampleParse ''2024-03-01T12:00:00.000Z'' ''k3j9x0q1z'' initialState
         (sampleForm ''2024-02-01'' ''2024-01-01'')
       = (initialState\<lparr>toasts := [invalidDates]\<rparr>, sampleForm ''2024-02-01'' ''2024-01-01'')
   \<and> tasks (fst (handleSubmit sampleParse ''2024-03-01T12:00:00.000Z'' ''k3j9x0q1z'' initialState
         (sampleForm ''2024-02-01'' ''2024-01-01''))) = initialTasks"
proof -
  have h: "dateGreater (newDate sampleParse (startDate (formData (sampleForm ''2024-02-01'' ''2024-01-01''))))
               (newDate sampleParse (endDate (formData (sampleForm ''2024-02-01'' ''2024-01-01''))))"
    by (simp add: dateGreater_def newDate_def sampleParse_def sampleForm_def sampleDraft_def)
  have t: "trim ''Design'' \<noteq> [] \<and> trim ''Sarah'' \<noteq> []"
    by (simp add: trim_def isWhiteSpace_def)
  from handleSubmit_rejects[OF disjI2, OF disjI2, OF h] h t
  show ?thesis
    by (auto simp: initialState_def handleSubmit_def sampleForm_def sampleDraft_def)
qed


lemma dateGreater_iff:
  "dateGreater a b \<longleftrightarrow> (\<exists>x y. a = Some x \<and> b = Some y \<and> y < x)"
  by (auto simp: dateGreater_def split: option.splits)

lemma handleSubmit_commit:
  assumes "trim (name (formData f)) \<noteq> []" and "trim (assignedTo (formData f)) \<noteq> []"
    and "\<not> dateGreater (newDate parse (startDate (formData f)))
                         (newDate parse (endDate (formData f)))"
  shows "handleSubmit parse timestamp newId s f =
           (handleCloseModal
              ((handleSaveTask timestamp newId s (formData f) (images_form f))
                 \<lparr>toasts := toasts s @ [savedToast (editingTask s) (name (formData f))]\<rparr>),
            f\<lparr>isSubmitting := False\<rparr>)"
proof -
  have "toasts (handleSaveTask timestamp newId s (formData f) (images_form f)) = toasts s"
    by (simp add: handleSaveTask_def Let_def split: option.splits)
  then show ?thesis
    using assms by (simp add: handleSubmit_def Let_def)
qed

text \<open>
  C10. For every draft whose name and assignee do not trim to the empty string, submit is
  rejected (one destructive toast, nothing else changed) if and only if both dates parse
  and the start is strictly after the end. In particular, when the start or the end date
  is empty or does not parse, submit is not rejected: it saves the draft, logs the toast of
  the default variant and closes the modal, and the saved task (the appended one on create,
  every task with the edited id on edit) holds the two date strings of the draft verbatim.
\<close>

theorem handleSubmit_dates:
  assumes "trim (name (formData f)) \<noteq> []" and "trim (assignedTo (formData f)) \<noteq> []"
  shows "((\<exists>t. handleSubmit parse timestamp newId s f = (s\<lparr>toasts := toasts s @ [t]\<rparr>, f)
              \<and> variant t = Destructive)
          \<longleftrightarrow> (\<exists>x y. newDate parse (startDate (formData f)) = Some x
                    \<and> newDate parse (endDate (formData f)) = Some y \<and> y < x))
       \<and> (startDate (formData f) = [] \<or> endDate (formData f) = []
            \<or> parse (startDate (formData f)) = None \<or> parse (endDate (formData f)) = None
          \<longrightarrow> (\<exists>s'. handleSubmit parse timestamp newId s f = (s', f\<lparr>isSubmitting := False\<rparr>)
                 \<and> toasts s' = toasts s @ [savedToast (editingTask s) (name (formData f))]
                 \<and> variant (last (toasts s')) = Default
                 \<and> tasks s' = tasks (handleSaveTask timestamp newId s (formData f) (images_form f))
                 \<and> (editingTask s = None \<longrightarrow>
                       (\<exists>t. tasks s' = tasks s @ [t]
                          \<and> startDate t = startDate (formData f)
                          \<and> endDate t = endDate (formData f)))
                 \<and> (\<forall>editing. editingTask s = Some editing \<longrightarrow>
                       length (tasks s') = length (tasks s)
                       \<and> (\<forall>k < length (tasks s). id_task (tasks s ! k) = id_task editing \<longrightarrow>
                              startDate (tasks s' ! k) = startDate (formData f)
                            \<and> endDate (tasks s' ! k) = endDate (formData f)))))"
proof (intro conjI impI)
  show "(\<exists>t. handleSubmit parse timestamp newId s f = (s\<lparr>toasts := toasts s @ [t]\<rparr>, f)
              \<and> variant t = Destructive)
          \<longleftrightarrow> (\<exists>x y. newDate parse (startDate (formData f)) = Some x
                    \<and> newDate parse (endDate (formData f)) = Some y \<and> y < x)"
  proof (cases "dateGreater (newDate parse (startDate (formData f)))
                            (newDate parse (endDate (formData f)))")
    case True
    then have "handleSubmit parse timestamp newId s f = (s\<lparr>toasts := toasts s @ [invalidDates]\<rparr>, f)"
      using assms by (simp add: handleSubmit_def)
    then have "\<exists>t. handleSubmit parse timestamp newId s f = (s\<lparr>toasts := toasts s @ [t]\<rparr>, f)
              \<and> variant t = Destructive"
      by (intro exI[of _ invalidDates]) (simp add: rejection_variant)
    with True show ?thesis unfolding dateGreater_iff by blast
  next
    case False
    have "\<not> (\<exists>t. handleSubmit parse timestamp newId s f = (s\<lparr>toasts := toasts s @ [t]\<rparr>, f)
              \<and> variant t = Destructive)"
    proof
      assume "\<exists>t. handleSubmit parse timestamp newId s f = (s\<lparr>toasts := toasts s @ [t]\<rparr>, f)
              \<and> variant t = Destructive"
      then obtain t where t: "handleSubmit parse timestamp newId s f = (s\<lparr>toasts := toasts s @ [t]\<rparr>, f)"
        and v: "variant t = Destructive" by blast
      from t have "toasts (fst (handleSubmit parse timestamp newId s f)) = toasts s @ [t]" by simp
      then have "savedToast (editingTask s) (name (formData f)) = t"
        unfolding handleSubmit_commit[OF assms False] by (simp add: handleCloseModal_def)
      with v savedToast_variant[of "editingTask s" "name (formData f)"] show False by simp
    qed
    with False show ?thesis unfolding dateGreater_iff by blast
  qed
next
  assume a: "startDate (formData f) = [] \<or> endDate (formData f) = []
            \<or> parse (startDate (formData f)) = None \<or> parse (endDate (formData f)) = None"
  then have "newDate parse (startDate (formData f)) = None \<or> newDate parse (endDate (formData f)) = None"
    by (auto simp: newDate_def)
  then have ng: "\<not> dateGreater (newDate parse (startDate (formData f)))
                                (newDate parse (endDate (formData f)))"
    by (auto simp: dateGreater_iff)
  define s' where "s' = handleCloseModal
              ((handleSaveTask timestamp newId s (formData f) (images_form f))
                 \<lparr>toasts := toasts s @ [savedToast (editingTask s) (name (formData f))]\<rparr>)"
  have r: "handleSubmit parse timestamp newId s f = (s', f\<lparr>isSubmitting := False\<rparr>)"
    unfolding s'_def by (rule handleSubmit_commit[OF assms ng])
  have t1: "toasts s' = toasts s @ [savedToast (editingTask s) (name (formData f))]"
    by (simp add: s'_def handleCloseModal_def)
  have t2: "variant (last (toasts s')) = Default"
    unfolding t1 by (simp add: savedToast_def)
  have t3: "tasks s' = tasks (handleSaveTask timestamp newId s (formData f) (images_form f))"
    by (simp add: s'_def handleCloseModal_def)
  have t4: "editingTask s = None \<longrightarrow>
                       (\<exists>t. tasks s' = tasks s @ [t]
                          \<and> startDate t = startDate (formData f)
                          \<and> endDate t = endDate (formData f))"
    unfolding t3 by (simp add: handleSaveTask_def)
  have t5: "\<forall>editing. editingTask s = Some editing \<longrightarrow>
                       length (tasks s') = length (tasks s)
                       \<and> (\<forall>k < length (tasks s). id_task (tasks s ! k) = id_task editing \<longrightarrow>
                              startDate (tasks s' ! k) = startDate (formData f)
                            \<and> endDate (tasks s' ! k) = endDate (formData f))"
    unfolding t3 by (simp add: handleSaveTask_def mergeTask_def)
  show "\<exists>s'. handleSubmit parse timestamp newId s f = (s', f\<lparr>isSubmitting := False\<rparr>)
                 \<and> toasts s' = toasts s @ [savedToast (editingTask s) (name (formData f))]
                 \<and> variant (last (toasts s')) = Default
                 \<and> tasks s' = tasks (handleSaveTask timestamp newId s (formData f) (images_form f))
                 \<and> (editingTask s = None \<longrightarrow>
                       (\<exists>t. tasks s' = tasks s @ [t]
                          \<and> startDate t = startDate (formData f)
                          \<and> endDate t = endDate (formData f)))
                 \<and> (\<forall>editing. editingTask s = Some editing \<longrightarrow>
                       length (tasks s') = length (tasks s)
                       \<and> (\<forall>k < length (tasks s). id_task (tasks s ! k) = id_task editing \<longrightarrow>
                              startDate (tasks s' ! k) = startDate (formData f)
                            \<and> endDate (tasks s' ! k) = endDate (formData f)))"
    by (rule exI[of _ s']) (intro conjI r t1 t2 t3 t4 t5)
qed

text \<open>
  C10 on the sample data, with an empty start date.
\<close>

theorem handleSubmit_dates_witness:
  "trim (name (formData (sampleForm [] ''2024-01-01''))) \<noteq> []
   \<and> trim (assignedTo (formData (sampleForm [] ''2024-01-01''))) \<noteq> []
   \<and> startDate (formData (sampleForm [] ''2024-01-01'')) = []
   \<and> (\<exists>s'. handleSubmit sampleParse ''2024-03-01T12:00:00.000Z'' ''k3j9x0q1z'' initialState
                (sampleForm [] ''2024-01-01'')
              = (s', (sampleForm [] ''2024-01-01'')\<lparr>isSubmitting := False\<rparr>)
            \<and> (\<exists>t. tasks s' = initialTasks @ [t] \<and> startDate t = [] \<and> endDate t = ''2024-01-01''))
   \<and> \<not> (\<exists>t. handleSubmit sampleParse ''2024-03-01T12:00:00.000Z'' ''k3j9x0q1z'' initialState
                (sampleForm [] ''2024-01-01'')
              = (initialState\<lparr>toasts := toasts initialState @ [t]\<rparr>, sampleForm [] ''2024-01-01'')
            \<and> variant t = Destructive)"
proof -
  have n: "trim (name (formData (sampleForm [] ''2024-01-01''))) \<noteq> []"
    by (simp add: sampleForm_def sampleDraft_def trim_def isWhiteSpace_def)
  have a: "trim (assignedTo (formData (sampleForm [] ''2024-01-01''))) \<noteq> []"
    by (simp add: sampleForm_def sampleDraft_def trim_def isWhiteSpace_def)
  have e: "startDate (formData (sampleForm [] ''2024-01-01'')) = []"
    by (simp add: sampleForm_def)
  have d: "endDate (formData (sampleForm [] ''2024-01-01'')) = ''2024-01-01''"
    by (simp add: sampleForm_def)
  have i: "editingTask initialState = None" "tasks initialState = initialTasks"
    by (simp_all add: initialState_def)
  have nd: "newDate sampleParse (startDate (formData (sampleForm [] ''2024-01-01''))) = None"
    by (simp add: e newDate_def)
  note th = handleSubmit_dates[OF n a, of sampleParse "''2024-03-01T12:00:00.000Z''"
               "''k3j9x0q1z''" initialState]
  from th have c1: "\<exists>s'. handleSubmit sampleParse ''2024-03-01T12:00:00.000Z'' ''k3j9x0q1z'' initialState
                (sampleForm [] ''2024-01-01'')
              = (s', (sampleForm [] ''2024-01-01'')\<lparr>isSubmitting := False\<rparr>)
            \<and> (\<exists>t. tasks s' = initialTasks @ [t] \<and> startDate t = [] \<and> endDate t = ''2024-01-01'')"
    using e d i by auto
  from th have c2: "\<not> (\<exists>t. handleSubmit sampleParse ''2024-03-01T12:00:00.000Z'' ''k3j9x0q1z'' initialState
                (sampleForm [] ''2024-01-01'')
              = (initialState\<lparr>toasts := toasts initialState @ [t]\<rparr>, sampleForm [] ''2024-01-01'')
            \<and> variant t = Destructive)"
    using nd by simp
  from n a e c1 c2 show ?thesis by blast
qed

section \<open>Filtering and grouping\<close>

lemma letterPairs_keys: "distinct (map fst letterPairs)"
  by (simp add: letterPairs_def)

lemma letterPairs_values: "distinct (map snd letterPairs)"
  by (simp add: letterPairs_def)

lemma letterPairs_disjoint:
  assumes "(c, d) \<in> set letterPairs"
  shows "map_of letterPairs d = None"
proof -
  have "set (map fst letterPairs) \<inter> set (map snd letterPairs) = {}"
    by (simp add: letterPairs_def)
  moreover from assms have "d \<in> set (map snd letterPairs)" by force
  ultimately have "d \<notin> fst ` set letterPairs" by auto
  then show ?thesis by (simp add: map_of_eq_None_iff)
qed

lemma letterPairs_lookup: "map_of letterPairs c = Some d \<longleftrightarrow> (c, d) \<in> set letterPairs"
  using letterPairs_keys by (auto intro: map_of_is_SomeI dest: map_of_SomeD)

lemma letterPairs_inj:
  assumes "(c, l) \<in> set letterPairs" and "(d, l) \<in> set letterPairs"
  shows "c = d"
proof -
  have "inj_on snd (set letterPairs)"
    using letterPairs_values by (simp add: distinct_map)
  from inj_onD[OF this, of "(c, l)" "(d, l)"] assms show ?thesis by simp
qed

lemma lowerChar_same: "lowerChar c = lowerChar d \<longleftrightarrow> sameLetter c d"
proof (cases "map_of letterPairs c")
  case None
  note nc = None
  show ?thesis
  proof (cases "map_of letterPairs d")
    case None
    with nc show ?thesis
      by (auto simp: lowerChar_def sameLetter_def letterPairs_lookup[symmetric])
  next
    case (Some l)
    with nc show ?thesis
      by (auto simp: lowerChar_def sameLetter_def letterPairs_lookup[symmetric])
  qed
next
  case (Some k)
  note sc = Some
  then have ck: "(c, k) \<in> set letterPairs" by (simp add: letterPairs_lookup)
  have kn: "map_of letterPairs k = None" using ck by (rule letterPairs_disjoint)
  show ?thesis
  proof (cases "map_of letterPairs d")
    case None
    have "(lowerChar c = lowerChar d) = (k = d)"
      using sc None by (simp add: lowerChar_def)
    also have "\<dots> = sameLetter c d"
    proof
      assume "k = d"
      with ck show "sameLetter c d" by (simp add: sameLetter_def)
    next
      assume "sameLetter c d"
      then consider "c = d" | "(c, d) \<in> set letterPairs" | "(d, c) \<in> set letterPairs"
        unfolding sameLetter_def by blast
      then show "k = d"
      proof cases
        case 1
        with sc None show ?thesis by simp
      next
        case 2
        then have "map_of letterPairs c = Some d" by (simp add: letterPairs_lookup)
        with sc show ?thesis by simp
      next
        case 3
        then have "map_of letterPairs d = Some c" by (simp add: letterPairs_lookup)
        with None show ?thesis by simp
      qed
    qed
    finally show ?thesis .
  next
    case (Some l)
    then have dl: "(d, l) \<in> set letterPairs" by (simp add: letterPairs_lookup)
    have ln: "map_of letterPairs l = None" using dl by (rule letterPairs_disjoint)
    have "(lowerChar c = lowerChar d) = (k = l)"
      using sc Some by (simp add: lowerChar_def)
    also have "\<dots> = sameLetter c d"
    proof
      assume "k = l"
      with ck dl have "c = d" using letterPairs_inj by blast
      then show "sameLetter c d" by (simp add: sameLetter_def)
    next
      assume "sameLetter c d"
      then consider "c = d" | "(c, d) \<in> set letterPairs" | "(d, c) \<in> set letterPairs"
        unfolding sameLetter_def by blast
      then show "k = l"
      proof cases
        case 1
        with sc Some show ?thesis by simp
      next
        case 2
        then have "map_of letterPairs d = None" by (rule letterPairs_disjoint)
        with Some show ?thesis by simp
      next
        case 3
        then have "map_of letterPairs c = None" by (rule letterPairs_disjoint)
        with sc show ?thesis by simp
      qed
    qed
    finally show ?thesis .
  qed
qed

lemma lowerASCII_same: "lowerASCII xs = lowerASCII ys \<longleftrightarrow> list_all2 sameLetter xs ys"
proof -
  have "lowerASCII xs = lowerASCII ys \<longleftrightarrow> list_all2 (=) (map lowerChar xs) (map lowerChar ys)"
    by (simp add: lowerASCII_def list.rel_eq)
  also have "\<dots> \<longleftrightarrow> list_all2 (\<lambda>c d. lowerChar c = lowerChar d) xs ys"
    by (simp add: list_all2_map1 list_all2_map2)
  also have "\<dots> \<longleftrightarrow> list_all2 sameLetter xs ys"
    by (simp add: lowerChar_same)
  finally show ?thesis .
qed

lemma sublist_lowerASCII:
  "sublist (lowerASCII q) (lowerASCII str) \<longleftrightarrow> caseInsensitiveSubstring q str"
proof
  assume "sublist (lowerASCII q) (lowerASCII str)"
  then obtain ps ss where "map lowerChar str = ps @ map lowerChar q @ ss"
    by (auto simp: lowerASCII_def sublist_def)
  then obtain pre rest where p: "str = pre @ rest" "map lowerChar q @ ss = map lowerChar rest"
    by (auto simp: map_eq_append_conv)
  then obtain mid post where m: "rest = mid @ post" "map lowerChar q = map lowerChar mid"
    by (auto simp: append_eq_map_conv)
  from m(2) have "list_all2 sameLetter mid q"
    using lowerASCII_same[of mid q] by (simp add: lowerASCII_def)
  with p(1) m(1) show "caseInsensitiveSubstring q str"
    unfolding caseInsensitiveSubstring_def by blast
next
  assume "caseInsensitiveSubstring q str"
  then obtain pre mid post where s: "str = pre @ mid @ post" and l: "list_all2 sameLetter mid q"
    unfolding caseInsensitiveSubstring_def by blast
  from l have "lowerASCII mid = lowerASCII q" by (simp add: lowerASCII_same)
  with s have "lowerASCII str = lowerASCII pre @ lowerASCII q @ lowerASCII post"
    by (simp add: lowerASCII_def)
  then show "sublist (lowerASCII q) (lowerASCII str)"
    unfolding sublist_def by blast
qed

lemma status_test_spec:
  "(sf = ''all'' \<or> statusTag (status t) = sf) \<longleftrightarrow> matchesStatus_spec sf t"
  by (cases "status t") (auto simp: matchesStatus_spec_def statusFilterOf_def)

lemma date_test_spec:
  assumes "rendersDay toDateString localDay"
  shows "(case df of None \<Rightarrow> True
          | Some d \<Rightarrow> toDateString (newDate parse (createdAt t)) = toDateString d)
         \<longleftrightarrow> matchesDate_spec localDay parse df t"
proof -
  from assms have r1: "\<And>x y. toDateString (Some x) = toDateString (Some y) \<longleftrightarrow> localDay x = localDay y"
    and r2: "\<And>x. toDateString (Some x) \<noteq> toDateString None"
    unfolding rendersDay_def by blast+
  from r2 have r3: "\<And>x. toDateString None \<noteq> toDateString (Some x)" by metis
  show ?thesis
  proof (cases df)
    case None
    then show ?thesis by (simp add: matchesDate_spec_def)
  next
    case (Some d)
    then show ?thesis
      by (cases d; cases "newDate parse (createdAt t)")
         (simp_all add: matchesDate_spec_def r1 r2 r3)
  qed
qed

lemma sampleLower_ascii: "lowersASCII sampleLower"
proof -
  have "\<not> isASCII capitalAlphaSigmaAlpha" "\<not> isASCII capitalAlphaSigma"
    by (simp_all add: isASCII_def capitalAlphaSigmaAlpha_def capitalAlphaSigma_def)
  then have "sampleLower str = lowerASCII str" if "isASCII str" for str
    using that unfolding sampleLower_def by auto
  then show ?thesis unfolding lowersASCII_def by blast
qed

lemma sample_rendersDay: "rendersDay sampleToDateString sampleLocalDay"
proof -
  have eq: "sampleToDateString (Some x) = sampleToDateString (Some y)
              \<longleftrightarrow> sampleLocalDay x = sampleLocalDay y" for x y
  proof
    assume a: "sampleToDateString (Some x) = sampleToDateString (Some y)"
    then have sgn: "(sampleLocalDay x < 0) = (sampleLocalDay y < 0)"
      by (simp add: sampleToDateString_def split: if_splits)
    from a have "nat \<bar>sampleLocalDay x\<bar> = nat \<bar>sampleLocalDay y\<bar>"
      by (simp add: sampleToDateString_def)
    with sgn show "sampleLocalDay x = sampleLocalDay y" by linarith
  next
    assume "sampleLocalDay x = sampleLocalDay y"
    then show "sampleToDateString (Some x) = sampleToDateString (Some y)"
      by (simp add: sampleToDateString_def)
  qed
  have ne: "sampleToDateString (Some x) \<noteq> sampleToDateString None" for x
    by (simp add: sampleToDateString_def)
  show ?thesis unfolding rendersDay_def using eq ne by blast
qed


lemma sampleToDateString_eq:
  "sampleToDateString (Some x) = sampleToDateString (Some y)
     \<longleftrightarrow> sampleLocalDay x = sampleLocalDay y"
  using sample_rendersDay unfolding rendersDay_def by blast

lemma sampleToDateString_invalid:
  "sampleToDateString (Some x) \<noteq> sampleToDateString None"
  "sampleToDateString None \<noteq> sampleToDateString (Some x)"
  using sample_rendersDay unfolding rendersDay_def by metis+

lemma mset_by_priority:
  "mset (filter (\<lambda>t. priority t = Urgent) xs) + mset (filter (\<lambda>t. priority t = High) xs)
     + mset (filter (\<lambda>t. priority t = Medium) xs) + mset (filter (\<lambda>t. priority t = Low) xs)
   = mset xs"
proof (induction xs)
  case Nil
  then show ?case by simp
next
  case (Cons x xs)
  then show ?case by (cases "priority x") simp_all
qed

lemma filteredTasks_code:
  "filteredTasks toLowerCase toDateString parse s =
     filter (\<lambda>t. (sublist (toLowerCase (searchQuery s)) (toLowerCase (name t))
                  \<or> sublist (toLowerCase (searchQuery s)) (toLowerCase (assignedTo t)))
                 \<and> matchesStatus_spec (statusFilter s) t
                 \<and> (case dateFilter s of
                       None \<Rightarrow> True
                     | Some d \<Rightarrow> toDateString (newDate parse (createdAt t)) = toDateString d))
            (tasks s)"
  unfolding filteredTasks_def Let_def includes_str_def status_test_spec ..

lemma search_test_spec:
  assumes "lowersASCII toLowerCase" and "isASCII q"
    and "isASCII (name t)" and "isASCII (assignedTo t)"
  shows "(sublist (toLowerCase q) (toLowerCase (name t))
            \<or> sublist (toLowerCase q) (toLowerCase (assignedTo t)))
         \<longleftrightarrow> matchesSearch_spec q t"
proof -
  from assms have "toLowerCase q = lowerASCII q" "toLowerCase (name t) = lowerASCII (name t)"
    "toLowerCase (assignedTo t) = lowerASCII (assignedTo t)"
    unfolding lowersASCII_def by blast+
  then show ?thesis
    by (simp add: matchesSearch_spec_def sublist_lowerASCII)
qed

lemma sameLetter_refl: "list_all2 sameLetter xs xs"
  by (simp add: list_all2_same sameLetter_def)

text \<open>
  C8, as stated, fails on the search. The task named with the capital letters alpha, sigma,
  alpha is in the collection, the search text alpha, sigma is literally the start of its
  name, and no status or date filter is set; yet the filtered result is empty. The engine
  lower-cases the sigma of the search text, which ends the word, to the final sigma and
  the sigma of the name to the small sigma, and the lower-cased search text is no part of
  the lower-cased name.
\<close>

theorem filteredTasks_search_counterexample:
  "greekTask \<in> set (tasks greekState)
   \<and> sublist (searchQuery greekState) (name greekTask)
   \<and> matchesSearch_spec (searchQuery greekState) greekTask
   \<and> matchesStatus_spec (statusFilter greekState) greekTask
   \<and> matchesDate_spec sampleLocalDay sampleParse (dateFilter greekState) greekTask
   \<and> filteredTasks sampleLower sampleToDateString sampleParse greekState = []"
proof -
  have n: "name greekTask = capitalAlphaSigma @ [CHR 0xCE, CHR 0x91]"
    by (simp add: greekTask_def sampleTask_def capitalAlphaSigmaAlpha_def capitalAlphaSigma_def)
  have q: "searchQuery greekState = capitalAlphaSigma"
    by (simp add: greekState_def initialState_def)
  have m: "greekTask \<in> set (tasks greekState)"
    by (simp add: greekState_def)
  have sub: "sublist (searchQuery greekState) (name greekTask)"
    unfolding n q by (rule prefix_imp_sublist) simp
  have "name greekTask = [] @ capitalAlphaSigma @ [CHR 0xCE, CHR 0x91]"
    using n by simp
  then have "caseInsensitiveSubstring capitalAlphaSigma (name greekTask)"
    unfolding caseInsensitiveSubstring_def using sameLetter_refl by blast
  then have sp: "matchesSearch_spec (searchQuery greekState) greekTask"
    by (simp add: matchesSearch_spec_def q)
  have st: "matchesStatus_spec (statusFilter greekState) greekTask"
    by (simp add: matchesStatus_spec_def statusFilterOf_def greekState_def initialState_def)
  have d: "matchesDate_spec sampleLocalDay sampleParse (dateFilter greekState) greekTask"
    by (simp add: matchesDate_spec_def greekState_def initialState_def)
  have e: "filteredTasks sampleLower sampleToDateString sampleParse greekState = []"
    by (simp add: filteredTasks_def greekState_def initialState_def greekTask_def sampleTask_def
          includes_str_def sampleLower_def capitalAlphaSigmaAlpha_def capitalAlphaSigma_def
          lowerASCII_def lowerChar_def letterPairs_def sublist_code)
  from m sub sp st d e show ?thesis by simp
qed

text \<open>
  C8, amended. A task is in the filtered result if and only if it is in the collection,
  the lower-cased search text is a contiguous part of its lower-cased name or of its
  lower-cased assignee, the status filter names every status or its status, and the date
  filter is unset or has the \<^verbatim>\<open>toDateString\<close> text of its \<open>createdAt\<close>. The result is a
  subsequence of the collection; each of the four buckets is the result restricted to one
  priority, again a subsequence, and together the buckets hold every filtered task exactly
  once. Both are functions of the state and return it untouched.

  On ASCII text the search test is the case-insensitive substring test. When
  \<^verbatim>\<open>toDateString\<close> renders calendar days, the date test is that the filter is unset, or
  falls on the calendar day of \<open>createdAt\<close>, or is invalid as \<open>createdAt\<close> is. With both,
  the filtered result is the collection filtered by the conjunction of the three
  predicates of the specification.
\<close>

theorem filteredTasks_grouped:
  "(\<forall>t. t \<in> set (filteredTasks toLowerCase toDateString parse s) \<longleftrightarrow>
          t \<in> set (tasks s)
        \<and> (sublist (toLowerCase (searchQuery s)) (toLowerCase (name t))
             \<or> sublist (toLowerCase (searchQuery s)) (toLowerCase (assignedTo t)))
        \<and> matchesStatus_spec (statusFilter s) t
        \<and> (case dateFilter s of
              None \<Rightarrow> True
            | Some d \<Rightarrow> toDateString (newDate parse (createdAt t)) = toDateString d))
   \<and> subseq (filteredTasks toLowerCase toDateString parse s) (tasks s)
   \<and> (\<forall>p. bucket (groupedTasks toLowerCase toDateString parse s) p
             = filter (\<lambda>t. priority t = p) (filteredTasks toLowerCase toDateString parse s)
          \<and> subseq (bucket (groupedTasks toLowerCase toDateString parse s) p)
                    (filteredTasks toLowerCase toDateString parse s))
   \<and> mset (urgent (groupedTasks toLowerCase toDateString parse s))
       + mset (high (groupedTasks toLowerCase toDateString parse s))
       + mset (medium (groupedTasks toLowerCase toDateString parse s))
       + mset (low (groupedTasks toLowerCase toDateString parse s))
     = mset (filteredTasks toLowerCase toDateString parse s)
   \<and> (lowersASCII toLowerCase \<and> isASCII (searchQuery s) \<longrightarrow>
        (\<forall>t. isASCII (name t) \<and> isASCII (assignedTo t) \<longrightarrow>
           ((sublist (toLowerCase (searchQuery s)) (toLowerCase (name t))
               \<or> sublist (toLowerCase (searchQuery s)) (toLowerCase (assignedTo t)))
            \<longleftrightarrow> matchesSearch_spec (searchQuery s) t)))
   \<and> (rendersDay toDateString localDay \<longrightarrow>
        (\<forall>t. (case dateFilter s of
                None \<Rightarrow> True
              | Some d \<Rightarrow> toDateString (newDate parse (createdAt t)) = toDateString d)
             \<longleftrightarrow> matchesDate_spec localDay parse (dateFilter s) t))
   \<and> (lowersASCII toLowerCase \<and> isASCII (searchQuery s)
        \<and> (\<forall>t \<in> set (tasks s). isASCII (name t) \<and> isASCII (assignedTo t))
        \<and> rendersDay toDateString localDay \<longrightarrow>
        filteredTasks toLowerCase toDateString parse s
          = filter (\<lambda>t. matchesSearch_spec (searchQuery s) t
                      \<and> matchesStatus_spec (statusFilter s) t
                      \<and> matchesDate_spec localDay parse (dateFilter s) t) (tasks s))"
proof (intro conjI allI impI)
  fix t
  show "t \<in> set (filteredTasks toLowerCase toDateString parse s) \<longleftrightarrow>
          t \<in> set (tasks s)
        \<and> (sublist (toLowerCase (searchQuery s)) (toLowerCase (name t))
             \<or> sublist (toLowerCase (searchQuery s)) (toLowerCase (assignedTo t)))
        \<and> matchesStatus_spec (statusFilter s) t
        \<and> (case dateFilter s of
              None \<Rightarrow> True
            | Some d \<Rightarrow> toDateString (newDate parse (createdAt t)) = toDateString d)"
    unfolding filteredTasks_code by simp
next
  show "subseq (filteredTasks toLowerCase toDateString parse s) (tasks s)"
    unfolding filteredTasks_code by (rule subseq_filter_left)
next
  fix p
  show "bucket (groupedTasks toLowerCase toDateString parse s) p
             = filter (\<lambda>t. priority t = p) (filteredTasks toLowerCase toDateString parse s)"
    by (cases p) (simp_all add: groupedTasks_def)
  then show "subseq (bucket (groupedTasks toLowerCase toDateString parse s) p)
                    (filteredTasks toLowerCase toDateString parse s)"
    by (simp only: subseq_filter_left)
next
  show "mset (urgent (groupedTasks toLowerCase toDateString parse s))
       + mset (high (groupedTasks toLowerCase toDateString parse s))
       + mset (medium (groupedTasks toLowerCase toDateString parse s))
       + mset (low (groupedTasks toLowerCase toDateString parse s))
     = mset (filteredTasks toLowerCase toDateString parse s)"
    using mset_by_priority[of "filteredTasks toLowerCase toDateString parse s"]
    by (simp add: groupedTasks_def)
next
  fix t :: Task
  assume "lowersASCII toLowerCase \<and> isASCII (searchQuery s)"
    and "isASCII (name t) \<and> isASCII (assignedTo t)"
  then show "(sublist (toLowerCase (searchQuery s)) (toLowerCase (name t))
               \<or> sublist (toLowerCase (searchQuery s)) (toLowerCase (assignedTo t)))
            \<longleftrightarrow> matchesSearch_spec (searchQuery s) t"
    using search_test_spec by blast
next
  fix t :: Task
  assume "rendersDay toDateString localDay"
  then show "(case dateFilter s of
                None \<Rightarrow> True
              | Some d \<Rightarrow> toDateString (newDate parse (createdAt t)) = toDateString d)
             \<longleftrightarrow> matchesDate_spec localDay parse (dateFilter s) t"
    by (rule date_test_spec)
next
  assume a: "lowersASCII toLowerCase \<and> isASCII (searchQuery s)
        \<and> (\<forall>t \<in> set (tasks s). isASCII (name t) \<and> isASCII (assignedTo t))
        \<and> rendersDay toDateString localDay"
  show "filteredTasks toLowerCase toDateString parse s
          = filter (\<lambda>t. matchesSearch_spec (searchQuery s) t
                      \<and> matchesStatus_spec (statusFilter s) t
                      \<and> matchesDate_spec localDay parse (dateFilter s) t) (tasks s)"
    unfolding filteredTasks_code
  proof (rule filter_cong[OF refl])
    fix t
    assume "t \<in> set (tasks s)"
    with a have asc: "isASCII (name t)" "isASCII (assignedTo t)" by blast+
    from a have l: "lowersASCII toLowerCase" and q: "isASCII (searchQuery s)"
      and r: "rendersDay toDateString localDay" by blast+
    show "((sublist (toLowerCase (searchQuery s)) (toLowerCase (name t))
             \<or> sublist (toLowerCase (searchQuery s)) (toLowerCase (assignedTo t)))
           \<and> matchesStatus_spec (statusFilter s) t
           \<and> (case dateFilter s of
                 None \<Rightarrow> True
               | Some d \<Rightarrow> toDateString (newDate parse (createdAt t)) = toDateString d))
          = (matchesSearch_spec (searchQuery s) t
             \<and> matchesStatus_spec (statusFilter s) t
             \<and> matchesDate_spec localDay parse (dateFilter s) t)"
      unfolding search_test_spec[OF l q asc] date_test_spec[OF r] ..
  qed
qed

lemma filterState_filtered:
  "filteredTasks sampleLower sampleToDateString sampleParse filterState = [hd initialTasks]"
  by (simp add: filteredTasks_def filterState_def initialState_def initialTasks_def
        includes_str_def sampleLower_def capitalAlphaSigmaAlpha_def capitalAlphaSigma_def
        lowerASCII_def lowerChar_def letterPairs_def sublist_code
        newDate_def sampleParse_def sampleToDateString_eq sampleToDateString_invalid
        sampleLocalDay_def)

text \<open>
  The amended C8 on the sample data, searching SARAH among the todo tasks created on
  10 January 2024.
\<close>

theorem filteredTasks_grouped_witness:
  "lowersASCII sampleLower
   \<and> isASCII (searchQuery filterState)
   \<and> rendersDay sampleToDateString sampleLocalDay
   \<and> filteredTasks sampleLower sampleToDateString sampleParse filterState = [hd initialTasks]
   \<and> filter (\<lambda>t. matchesSearch_spec (searchQuery filterState) t
                  \<and> matchesStatus_spec (statusFilter filterState) t
                  \<and> matchesDate_spec sampleLocalDay sampleParse (dateFilter filterState) t)
         (tasks filterState) = [hd initialTasks]
   \<and> bucket (groupedTasks sampleLower sampleToDateString sampleParse filterState) High
       = [hd initialTasks]
   \<and> bucket (groupedTasks sampleLower sampleToDateString sampleParse filterState) Low = []"
proof -
  note th = filteredTasks_grouped[of sampleLower sampleToDateString sampleParse filterState
              sampleLocalDay]
  have q: "isASCII (searchQuery filterState)"
    by (simp add: isASCII_def filterState_def)
  have ts: "\<forall>t \<in> set (tasks filterState). isASCII (name t) \<and> isASCII (assignedTo t)"
    by (simp add: isASCII_def filterState_def initialState_def initialTasks_def)
  have p: "priority (hd initialTasks) = High" by (simp add: initialTasks_def)
  note buckets = th[THEN conjunct2, THEN conjunct2, THEN conjunct1, rule_format]
  note whole = th[THEN conjunct2, THEN conjunct2, THEN conjunct2, THEN conjunct2,
                  THEN conjunct2, THEN conjunct2, rule_format]
  have f: "filter (\<lambda>t. matchesSearch_spec (searchQuery filterState) t
                  \<and> matchesStatus_spec (statusFilter filterState) t
                  \<and> matchesDate_spec sampleLocalDay sampleParse (dateFilter filterState) t)
         (tasks filterState) = [hd initialTasks]"
    using whole sampleLower_ascii q ts sample_rendersDay filterState_filtered by simp
  have b: "bucket (groupedTasks sampleLower sampleToDateString sampleParse filterState) High
             = [hd initialTasks]"
    "bucket (groupedTasks sampleLower sampleToDateString sampleParse filterState) Low = []"
    using buckets[of High] buckets[of Low] p unfolding filterState_filtered by simp_all
  from sampleLower_ascii q sample_rendersDay filterState_filtered f b show ?thesis by simp
qed

end
